theory Spec2Isabelle
  imports Complex_Main "HOL-Library.Char_ord" "HOL-Library.List_Lexorder"
begin

section \<open>Data model\<close>

text \<open>
  \<^verbatim>\<open>interface Expense { id: string; amount: number; category: string;
                       description: string; date: string }\<close>
  (ExpenseCalculator.tsx, lines 10-16). The field \<^verbatim>\<open>id\<close> is written \<open>id'\<close>, since
  \<open>id\<close> is the identity function of HOL. An amount is a JavaScript number, a finite
  double, and the model holds the real number that the double denotes. Doubles are
  added with the addition of the host (\<open>plus\<close> of \<open>Host\<close> below), which rounds, so
  nothing here takes a sum of amounts to be exact or independent of the order of the
  additions. NaN and the infinities are not amounts; they appear only as results of a
  division, see \<open>Number\<close>.
\<close>

record Expense =
  id' :: string
  amount :: real
  category :: string
  description :: string
  date :: string

text \<open>The form state: four strings, as typed by the user.\<close>

record Form =
  form_amount :: string
  form_category :: string
  form_description :: string
  form_date :: string

text \<open>A notification: the argument of \<^verbatim>\<open>toast({title, description, variant})\<close>.\<close>

record Toast =
  title :: string
  message :: string
  destructive :: bool

section \<open>The JavaScript primitives the components use\<close>

text \<open>A string is falsy exactly when it is empty; \<^verbatim>\<open>null\<close> is falsy.\<close>

definition truthy :: "string \<Rightarrow> bool" where
  "truthy s = (s \<noteq> [])"

text \<open>
  \<^verbatim>\<open>Number.prototype.toString\<close> on an integer (below \<open>10^21\<close> in absolute value, as
  every time value and every year is): the decimal digits, with a minus sign.
  In \<open>toString_opt\<close>, \<open>None\<close> stands for NaN.
\<close>

function digits :: "int \<Rightarrow> string" where
  "digits n = (if n < 10 then [''0123456789'' ! nat n]
               else digits (n div 10) @ [''0123456789'' ! nat (n mod 10)])"
  by pat_completeness auto
termination
  by (relation "measure nat") auto

declare digits.simps [simp del]

definition toString :: "int \<Rightarrow> string" where
  "toString n = (if n < 0 then CHR ''-'' # digits (- n) else digits n)"

definition toString_opt :: "int option \<Rightarrow> string" where
  "toString_opt v = (case v of None \<Rightarrow> ''NaN'' | Some n \<Rightarrow> toString n)"

text \<open>
  The number that a string of decimal digits denotes (\<open>None\<close> when a character is not
  a digit).
\<close>

definition digit :: "char \<Rightarrow> int option" where
  "digit c = (let n = of_char c :: nat in if 48 \<le> n \<and> n \<le> 57 then Some (int n - 48) else None)"

definition number :: "string \<Rightarrow> int option" where
  "number s =
     foldl (\<lambda>acc c. case (acc, digit c) of (Some a, Some d) \<Rightarrow> Some (10 * a + d) | _ \<Rightarrow> None)
       (Some 0) s"

text \<open>\<^verbatim>\<open>s.padStart(n, '0')\<close>\<close>

definition padStart :: "nat \<Rightarrow> string \<Rightarrow> string" where
  "padStart n s = replicate (n - length s) (CHR ''0'') @ s"

text \<open>
  \<^verbatim>\<open>a === b\<close> on two numbers, \<open>None\<close> standing for NaN: NaN is equal to nothing, not
  even to itself.
\<close>

definition strict_eq :: "int option \<Rightarrow> int option \<Rightarrow> bool" where
  "strict_eq a b = (case (a, b) of (Some x, Some y) \<Rightarrow> x = y | _ \<Rightarrow> False)"

text \<open>
  The result of a division of two finite numbers: \<^verbatim>\<open>x / 0\<close> is \<^verbatim>\<open>Infinity\<close>,
  \<^verbatim>\<open>-Infinity\<close> or (for \<^verbatim>\<open>0 / 0\<close>) \<^verbatim>\<open>NaN\<close>. The divisor of the components is a sum
  that starts at \<^verbatim>\<open>+0\<close>, which is never \<^verbatim>\<open>-0\<close>. A quotient by a divisor other than 0
  and the product by 100 are written as the exact quotient and product; a double
  carries them rounded.
\<close>

datatype Number = Finite real | Infinity | NegInfinity | NaN

definition js_div :: "real \<Rightarrow> real \<Rightarrow> Number" where
  "js_div a b =
     (if b = 0 then (if a > 0 then Infinity else if a < 0 then NegInfinity else NaN)
      else Finite (a / b))"

text \<open>\<^verbatim>\<open>x * c\<close> for a positive finite constant \<open>c\<close>.\<close>

definition js_times :: "Number \<Rightarrow> real \<Rightarrow> Number" where
  "js_times x c = (case x of Finite r \<Rightarrow> Finite (r * c) | other \<Rightarrow> other)"

text \<open>
  An object literal \<^verbatim>\<open>{}\<close> used as a dictionary from category labels to numbers. It
  is modelled as the list of its entries, read with \<open>map_of\<close> and written with
  \<open>assign\<close>. The object inherits the properties of \<^verbatim>\<open>Object.prototype\<close>, which the
  list does not have: reading \<^verbatim>\<open>acc['constructor']\<close> on an empty object gives a
  function, not \<^verbatim>\<open>undefined\<close>, so that the total of such a category becomes a
  string, and assigning a number to \<^verbatim>\<open>acc['__proto__']\<close> creates no entry. The list
  is the object only for keys outside \<open>Object_prototype_properties\<close>, as the ten
  labels that the form offers are, and the properties of the dictionary are stated for
  such keys. The list is in the order of creation of the keys; \<^verbatim>\<open>Object.entries\<close>
  enumerates in that order too, except that it puts the keys that are array indices
  (canonical decimal numerals) first.
\<close>

definition Object_prototype_properties :: "string list" where
  "Object_prototype_properties =
     [''constructor'', ''__proto__'', ''__defineGetter__'', ''__defineSetter__'',
      ''__lookupGetter__'', ''__lookupSetter__'', ''hasOwnProperty'', ''isPrototypeOf'',
      ''propertyIsEnumerable'', ''toLocaleString'', ''toString'', ''valueOf'']"

text \<open>
  \<^verbatim>\<open>obj[k] = v\<close>: a key that is present keeps its place, a new key goes to the end.
\<close>

fun assign :: "'k \<Rightarrow> 'v \<Rightarrow> ('k \<times> 'v) list \<Rightarrow> ('k \<times> 'v) list" where
  "assign k v [] = [(k, v)]"
| "assign k v ((k', v') # kvs) =
     (if k' = k then (k, v) # kvs else (k', v') # assign k v kvs)"

text \<open>\<^verbatim>\<open>obj[k] || 0\<close>: the value, or 0 when the key is absent or the value is falsy.\<close>

definition or0 :: "real option \<Rightarrow> real" where
  "or0 v = (case v of None \<Rightarrow> 0 | Some x \<Rightarrow> if x = 0 then 0 else x)"

text \<open>
  \<^verbatim>\<open>const existing = acc.find(P); if (existing) { existing.f += ... }\<close>: \<^verbatim>\<open>find\<close>
  returns the first element that satisfies \<open>P\<close>, and the assignment mutates that
  element of the array in place.
\<close>

fun update_first :: "('a \<Rightarrow> bool) \<Rightarrow> ('a \<Rightarrow> 'a) \<Rightarrow> 'a list \<Rightarrow> 'a list" where
  "update_first P f [] = []"
| "update_first P f (x # xs) = (if P x then f x # xs else x # update_first P f xs)"

subsection \<open>Dates\<close>

text \<open>
  A \<^verbatim>\<open>Date\<close> object is its time value: milliseconds since 1970-01-01T00:00Z, or NaN
  (\<open>None\<close>, an Invalid Date). The day arithmetic is that of ECMA-262 (Day,
  TimeWithinDay, YearFromTime, MonthFromTime, DateFromTime, MakeDay, MakeDate) in the
  proleptic Gregorian calendar; the conversion between day numbers and civil dates is
  written with the usual era arithmetic (an era is 400 years, 146097 days; day 0 of
  the shifted count is 0000-03-01).
\<close>

definition msPerDay :: int where
  "msPerDay = 86400000"

definition days_from_civil :: "int \<Rightarrow> int \<Rightarrow> int \<Rightarrow> int" where
  "days_from_civil y m d =
     (let y' = (if m \<le> 2 then y - 1 else y);
          era = y' div 400;
          yoe = y' - era * 400;
          doy = (153 * (if m > 2 then m - 3 else m + 9) + 2) div 5 + d - 1;
          doe = yoe * 365 + yoe div 4 - yoe div 100 + doy
      in era * 146097 + doe - 719468)"

definition civil_from_days :: "int \<Rightarrow> int \<times> int \<times> int" where
  "civil_from_days z0 =
     (let z = z0 + 719468;
          era = z div 146097;
          doe = z - era * 146097;
          yoe = (doe - doe div 1460 + doe div 36524 - doe div 146096) div 365;
          doy = doe - (365 * yoe + yoe div 4 - yoe div 100);
          mp = (5 * doy + 2) div 153;
          d = doy - (153 * mp + 2) div 5 + 1;
          m = (if mp < 10 then mp + 3 else mp - 9);
          y = yoe + era * 400
      in (if m \<le> 2 then y + 1 else y, m, d))"

definition Day :: "int \<Rightarrow> int" where
  "Day t = t div msPerDay"

definition TimeWithinDay :: "int \<Rightarrow> int" where
  "TimeWithinDay t = t mod msPerDay"

definition YearFromTime :: "int \<Rightarrow> int" where
  "YearFromTime t = (case civil_from_days (Day t) of (y, m, d) \<Rightarrow> y)"

text \<open>Months are numbered from 0, as \<^verbatim>\<open>getMonth\<close> returns them.\<close>

definition MonthFromTime :: "int \<Rightarrow> int" where
  "MonthFromTime t = (case civil_from_days (Day t) of (y, m, d) \<Rightarrow> m - 1)"

definition DateFromTime :: "int \<Rightarrow> int" where
  "DateFromTime t = (case civil_from_days (Day t) of (y, m, d) \<Rightarrow> d)"

text \<open>
  \<open>MakeDay year month date\<close> for a month in 0..11: the day number of the first of the
  month, plus \<open>date - 1\<close> (any integer, also zero or negative).
\<close>

definition MakeDay :: "int \<Rightarrow> int \<Rightarrow> int \<Rightarrow> int" where
  "MakeDay year month dt = days_from_civil year (month + 1) 1 + dt - 1"

definition MakeDate :: "int \<Rightarrow> int \<Rightarrow> int" where
  "MakeDate day time = day * msPerDay + time"

text \<open>
  What the host supplies: the parser behind \<^verbatim>\<open>new Date(string)\<close>, the conversions
  between UTC and the local time of the host's time zone (\<open>LocalTime\<close> and \<open>UTC\<close> of
  ECMA-262), the two \<^verbatim>\<open>toLocaleDateString('en-US', ...)\<close> formatters of
  ExpenseCharts, which only label the chart axes, and the addition of numbers. The
  accessors \<^verbatim>\<open>getFullYear\<close>, \<^verbatim>\<open>getMonth\<close> and \<^verbatim>\<open>getDate\<close> read the time value in
  local time.

  \<open>plus h a b\<close> is \<^verbatim>\<open>a + b\<close> on two numbers: the double nearest to the exact sum of
  the two doubles. It is neither exact nor associative (0.1 + 0.1 + 0.4 is
  0.6000000000000001 and 0.1 + 0.4 + 0.1 is 0.6), so the model leaves it to the host
  and the properties below are proved for every \<open>plus\<close>; where a property needs
  more, it says what it needs of \<open>plus\<close>. Only the values of \<open>plus\<close> on doubles
  matter, and the sums are taken to stay finite (a sum of amounts near \<open>1.8 * 10^308\<close>
  is \<^verbatim>\<open>Infinity\<close>, which is not a real).
\<close>

record Host =
  plus :: "real \<Rightarrow> real \<Rightarrow> real"
  new_Date :: "string \<Rightarrow> int option"
  LocalTime :: "int \<Rightarrow> int"
  UTC :: "int \<Rightarrow> int"
  monthLabel :: "int option \<Rightarrow> string"
  dayLabel :: "int option \<Rightarrow> string"

definition getFullYear :: "Host \<Rightarrow> int option \<Rightarrow> int option" where
  "getFullYear h d = map_option (\<lambda>t. YearFromTime (LocalTime h t)) d"

definition getMonth :: "Host \<Rightarrow> int option \<Rightarrow> int option" where
  "getMonth h d = map_option (\<lambda>t. MonthFromTime (LocalTime h t)) d"

definition getDate :: "Host \<Rightarrow> int \<Rightarrow> int" where
  "getDate h t = DateFromTime (LocalTime h t)"

text \<open>\<^verbatim>\<open>d.setDate(dt)\<close> on a valid date: the new time value.\<close>

definition setDate :: "Host \<Rightarrow> int \<Rightarrow> int \<Rightarrow> int" where
  "setDate h t dt =
     (let lt = LocalTime h t
      in UTC h (MakeDate (MakeDay (YearFromTime lt) (MonthFromTime lt) dt) (TimeWithinDay lt)))"

text \<open>
  \<^verbatim>\<open>new Date().toISOString().split('T')[0]\<close>: the UTC date of a time value, as
  \<^verbatim>\<open>YYYY-MM-DD\<close> (years outside 0..9999 have a sign and six digits).
\<close>

definition isoDate :: "int \<Rightarrow> string" where
  "isoDate t =
     (case civil_from_days (Day t) of (y, m, d) \<Rightarrow>
        (if 0 \<le> y \<and> y \<le> 9999 then padStart 4 (digits y)
         else (if y < 0 then CHR ''-'' else CHR ''+'') # padStart 6 (digits \<bar>y\<bar>))
        @ ''-'' @ padStart 2 (digits m) @ ''-'' @ padStart 2 (digits d))"

subsection \<open>A concrete host\<close>

text \<open>
  A host in a time zone with a fixed offset of \<open>tz\<close> minutes east of UTC (no daylight
  saving time), used to run the components on concrete records. Its parser reads the
  date-only ISO format \<^verbatim>\<open>YYYY-MM-DD\<close> (the value of an \<^verbatim>\<open><input type="date">\<close>) as
  midnight UTC of that day, as ECMA-262 asks, and takes every other string for an
  Invalid Date. As V8 does, it accepts a day up to 31 in every month and carries the
  days past the end of the month into the next one (\<^verbatim>\<open>2024-02-30\<close> is 1 March 2024).
  Its addition is the exact one: the concrete runs add whole numbers below \<open>2^53\<close>,
  on which the addition of doubles is exact.
\<close>

definition daysInMonth :: "int \<Rightarrow> int \<Rightarrow> int" where
  "daysInMonth y m =
     (if m = 2 then (if y mod 4 = 0 \<and> (y mod 100 \<noteq> 0 \<or> y mod 400 = 0) then 29 else 28)
      else if m = 4 \<or> m = 6 \<or> m = 9 \<or> m = 11 then 30 else 31)"

text \<open>
  The year, month and day of a well-formed date string; the day is at most 31, whatever
  the month.
\<close>

definition iso_fields :: "string \<Rightarrow> (int \<times> int \<times> int) option" where
  "iso_fields s =
     (if length s = 10 \<and> s ! 4 = CHR ''-'' \<and> s ! 7 = CHR ''-'' then
        (case (number (take 4 s), number (take 2 (drop 5 s)), number (drop 8 s)) of
           (Some y, Some m, Some d) \<Rightarrow>
             if 1 \<le> m \<and> m \<le> 12 \<and> 1 \<le> d \<and> d \<le> 31
             then Some (y, m, d) else None
         | _ \<Rightarrow> None)
      else None)"

definition iso_parse :: "string \<Rightarrow> int option" where
  "iso_parse s = map_option (\<lambda>(y, m, d). days_from_civil y m d * msPerDay) (iso_fields s)"

definition month_names :: "string list" where
  "month_names = [''Jan'', ''Feb'', ''Mar'', ''Apr'', ''May'', ''Jun'',
                  ''Jul'', ''Aug'', ''Sep'', ''Oct'', ''Nov'', ''Dec'']"

definition host :: "int \<Rightarrow> Host" where
  "host tz =
     \<lparr>plus = (+),
      new_Date = iso_parse,
      LocalTime = (\<lambda>t. t + tz * 60000),
      UTC = (\<lambda>t. t - tz * 60000),
      monthLabel = (\<lambda>d. case d of None \<Rightarrow> ''Invalid Date''
         | Some t \<Rightarrow> month_names ! nat (MonthFromTime (t + tz * 60000)) @ '' ''
                      @ toString (YearFromTime (t + tz * 60000))),
      dayLabel = (\<lambda>d. case d of None \<Rightarrow> ''Invalid Date''
         | Some t \<Rightarrow> month_names ! nat (MonthFromTime (t + tz * 60000)) @ '' ''
                      @ toString (DateFromTime (t + tz * 60000)))\<rparr>"

section \<open>ExpenseCalculator, the local variant (ExpenseCalculator.tsx)\<close>

definition EXPENSE_CATEGORIES :: "string list" where
  "EXPENSE_CATEGORIES =
     [''Food & Dining'', ''Transportation'', ''Shopping'', ''Entertainment'',
      ''Bills & Utilities'', ''Healthcare'', ''Travel'', ''Education'', ''Business'', ''Other'']"

text \<open>
  The component state: the four \<^verbatim>\<open>useState\<close> cells, and the notifications shown so
  far (each \<^verbatim>\<open>toast(...)\<close> call appends one).
\<close>

record State =
  expenses :: "Expense list"
  form :: Form
  editingId :: "string option"
  filterCategory :: string
  toasts :: "Toast list"

definition toast :: "Toast \<Rightarrow> 'a State_scheme \<Rightarrow> 'a State_scheme" where
  "toast t s = s\<lparr>toasts := toasts s @ [t]\<rparr>"

definition validation_error :: Toast where
  "validation_error =
     \<lparr>title = ''Validation Error'', message = ''Please fill in all required fields.'',
      destructive = True\<rparr>"

definition success :: "string \<Rightarrow> Toast" where
  "success msg = \<lparr>title = ''Success'', message = msg, destructive = False\<rparr>"

text \<open>
  The guard of \<^verbatim>\<open>handleSubmit\<close> (line 46):
  \<^verbatim>\<open>!form.amount || !form.category || !form.description\<close>
\<close>

definition invalid :: "Form \<Rightarrow> bool" where
  "invalid f = (\<not> truthy (form_amount f) \<or> \<not> truthy (form_category f)
                 \<or> \<not> truthy (form_description f))"

text \<open>
  \<^verbatim>\<open>editingId\<close> as a condition (\<^verbatim>\<open>editingId || ...\<close>, \<^verbatim>\<open>if (editingId)\<close>): the
  identifier being edited when it is truthy, that is neither \<^verbatim>\<open>null\<close> nor empty.
\<close>

definition editing :: "string option \<Rightarrow> string option" where
  "editing v = (case v of None \<Rightarrow> None | Some i \<Rightarrow> if truthy i then Some i else None)"

text \<open>The form after a submit: empty, with today's date (UTC).\<close>

definition reset_form :: "int \<Rightarrow> Form" where
  "reset_form now = \<lparr>form_amount = [], form_category = [], form_description = [],
                      form_date = isoDate now\<rparr>"

text \<open>
  \<^verbatim>\<open>handleSubmit\<close> (lines 43-84). \<open>parseFloat\<close> is the host's function, \<open>now\<close> is what
  \<^verbatim>\<open>Date.now()\<close> returns on line 56 and \<open>now'\<close> the time value of \<^verbatim>\<open>new Date()\<close> on line
  82.
  \<^verbatim>\<open>
    if (!form.amount || !form.category || !form.description) { toast({...}); return; }
    const expense = { id: editingId || Date.now().toString(),
                      amount: parseFloat(form.amount), category: form.category,
                      description: form.description, date: form.date };
    if (editingId) {
      setExpenses(prev => prev.map(exp => exp.id === editingId ? expense : exp));
      setEditingId(null); toast({...});
    } else {
      setExpenses(prev => [...prev, expense]); toast({...});
    }
    setForm({ amount: '', category: '', description: '', date: ... });
  \<close>
\<close>

definition handleSubmit :: "(string \<Rightarrow> real) \<Rightarrow> int \<Rightarrow> int \<Rightarrow> State \<Rightarrow> State" where
  "handleSubmit parseFloat now now' s =
     (if invalid (form s) then toast validation_error s
      else
        let expense = \<lparr>id' = (case editing (editingId s) of Some i \<Rightarrow> i | None \<Rightarrow> toString now),
                       amount = parseFloat (form_amount (form s)),
                       category = form_category (form s),
                       description = form_description (form s),
                       date = form_date (form s)\<rparr>;
            s' = (case editing (editingId s) of
                    Some i \<Rightarrow>
                      toast (success ''Expense updated successfully!'')
                        (s\<lparr>expenses := map (\<lambda>exp. if id' exp = i then expense else exp) (expenses s),
                           editingId := None\<rparr>)
                  | None \<Rightarrow>
                      toast (success ''Expense added successfully!'')
                        (s\<lparr>expenses := expenses s @ [expense]\<rparr>))
        in s'\<lparr>form := reset_form now'\<rparr>)"

text \<open>
  \<^verbatim>\<open>handleEdit\<close> (lines 86-94); \<open>render\<close> is \<^verbatim>\<open>Number.prototype.toString\<close> on the
  amount.
\<close>

definition handleEdit :: "(real \<Rightarrow> string) \<Rightarrow> Expense \<Rightarrow> State \<Rightarrow> State" where
  "handleEdit render expense s =
     s\<lparr>form := \<lparr>form_amount = render (amount expense), form_category = category expense,
                 form_description = description expense, form_date = date expense\<rparr>,
       editingId := Some (id' expense)\<rparr>"

text \<open>
  \<^verbatim>\<open>handleDelete\<close> (lines 96-102):
  \<^verbatim>\<open>setExpenses(prev => prev.filter(exp => exp.id !== id)); toast({...})\<close>
\<close>

definition handleDelete :: "string \<Rightarrow> State \<Rightarrow> State" where
  "handleDelete i s =
     toast (success ''Expense deleted successfully!'')
       (s\<lparr>expenses := filter (\<lambda>exp. id' exp \<noteq> i) (expenses s)\<rparr>)"

text \<open>
  The derived values of a render (lines 104-112).
  \<^verbatim>\<open>arr.reduce((sum, exp) => sum + exp.amount, 0)\<close> is a left fold from 0.
\<close>

definition sum_amounts :: "Host \<Rightarrow> Expense list \<Rightarrow> real" where
  "sum_amounts h es = foldl (\<lambda>sum exp. plus h sum (amount exp)) 0 es"

definition filteredExpenses :: "'a State_scheme \<Rightarrow> Expense list" where
  "filteredExpenses s =
     (if filterCategory s = ''all'' then expenses s
      else filter (\<lambda>exp. category exp = filterCategory s) (expenses s))"

definition totalAmount :: "Host \<Rightarrow> 'a State_scheme \<Rightarrow> real" where
  "totalAmount h s = sum_amounts h (filteredExpenses s)"

text \<open>
  \<^verbatim>\<open>expenses.reduce((acc, exp) => {
       acc[exp.category] = (acc[exp.category] || 0) + exp.amount; return acc; }, {})\<close>
\<close>

definition categoryTotals_step ::
  "Host \<Rightarrow> (string \<times> real) list \<Rightarrow> Expense \<Rightarrow> (string \<times> real) list" where
  "categoryTotals_step h acc expense =
     assign (category expense)
       (plus h (or0 (map_of acc (category expense))) (amount expense)) acc"

definition categoryTotals :: "Host \<Rightarrow> Expense list \<Rightarrow> (string \<times> real) list" where
  "categoryTotals h es = foldl (categoryTotals_step h) [] es"

text \<open>
  The "This Month" card (lines 165-167):
  \<^verbatim>\<open>expenses.filter(exp => new Date(exp.date).getMonth() === new Date().getMonth())
           .reduce((sum, exp) => sum + exp.amount, 0)\<close>
  The filter function reads the clock each time it is called: \<open>clock i\<close> is the time
  value of the \<^verbatim>\<open>new Date()\<close> of its call on the record at index \<open>i\<close>.
\<close>

definition thisMonth :: "Host \<Rightarrow> (nat \<Rightarrow> int) \<Rightarrow> Expense list \<Rightarrow> real" where
  "thisMonth h clock es =
     sum_amounts h
       (map snd
          (filter (\<lambda>(i, exp). strict_eq (getMonth h (new_Date h (date exp)))
                                 (getMonth h (Some (clock i))))
             (enumerate 0 es)))"

text \<open>
  The Category Breakdown card (lines 326-349): shown when \<^verbatim>\<open>categoryTotals\<close> has a key,
  one entry per category with its total and the share
  \<^verbatim>\<open>(amount / totalAmount) * 100\<close>, where \<^verbatim>\<open>totalAmount\<close> is the total of the
  filtered list.
\<close>

definition categoryBreakdown :: "Host \<Rightarrow> 'a State_scheme \<Rightarrow> (string \<times> real \<times> Number) list" where
  "categoryBreakdown h s =
     (if length (categoryTotals h (expenses s)) > 0
      then map (\<lambda>(c, a). (c, a, js_times (js_div a (totalAmount h s)) 100))
             (categoryTotals h (expenses s))
      else [])"

section \<open>ExpenseCalculator, the persisted variant\<close>

text \<open>
  The second ExpenseCalculator keeps the records in a remote table. An \<^verbatim>\<open>await\<close> either
  throws (the promise rejects) or yields a value; what the remote answers may depend on
  the calls made so far, which the state logs.
\<close>

datatype 'a outcome = Rejects | Resolves 'a

datatype Call =
    Auth_getUser
  | Select_expenses
  | Update_expense string real string string string
  | Insert_expense real string string string string

text \<open>
  \<^verbatim>\<open>getUser\<close> yields the user's id or null; \<^verbatim>\<open>select\<close> yields \<^verbatim>\<open>{data, error}\<close>; the
  others yield \<^verbatim>\<open>error\<close>, an error message or null.
\<close>

record Remote =
  getUser_result :: "Call list \<Rightarrow> string option outcome"
  select_result :: "Call list \<Rightarrow> (Expense list option \<times> string option) outcome"
  update_result :: "Call list \<Rightarrow> string option outcome"
  insert_result :: "Call list \<Rightarrow> string option outcome"

record PState = State +
  loading :: bool
  calls :: "Call list"
  navigated :: "string list"

definition call :: "Call \<Rightarrow> PState \<Rightarrow> PState" where
  "call c s = s\<lparr>calls := calls s @ [c]\<rparr>"

definition navigate :: "string \<Rightarrow> PState \<Rightarrow> PState" where
  "navigate path s = s\<lparr>navigated := navigated s @ [path]\<rparr>"

definition failure :: "string \<Rightarrow> Toast" where
  "failure msg = \<lparr>title = ''Error'', message = msg, destructive = True\<rparr>"

text \<open>\<^verbatim>\<open>loadExpenses\<close> (lines 53-84 of the persisted variant).\<close>

definition loadExpenses :: "Remote \<Rightarrow> PState \<Rightarrow> PState" where
  "loadExpenses r s =
     (let s1 = call Auth_getUser s;
          s2 = (case getUser_result r (calls s) of
                  Rejects \<Rightarrow> toast (failure ''An unexpected error occurred while loading expenses'') s1
                | Resolves None \<Rightarrow> navigate ''/login'' s1
                | Resolves (Some user) \<Rightarrow>
                    (case select_result r (calls s1) of
                       Rejects \<Rightarrow>
                         toast (failure ''An unexpected error occurred while loading expenses'')
                           (call Select_expenses s1)
                     | Resolves (data, Some err) \<Rightarrow>
                         toast (failure (''Failed to load expenses: '' @ err))
                           (call Select_expenses s1)
                     | Resolves (data, None) \<Rightarrow>
                         (call Select_expenses s1)
                           \<lparr>expenses := (case data of None \<Rightarrow> [] | Some rows \<Rightarrow> rows)\<rparr>))
      in s2\<lparr>loading := False\<rparr>)"

text \<open>
  \<^verbatim>\<open>handleSubmit\<close> of the persisted variant (lines 111-200): the same guard, then the
  remote update or insert, the reload and the form reset; a remote error or a throw
  ends it with a notification.
\<close>

definition handleSubmit_remote :: "Remote \<Rightarrow> (string \<Rightarrow> real) \<Rightarrow> int \<Rightarrow> PState \<Rightarrow> PState" where
  "handleSubmit_remote r parseFloat now' s =
     (if invalid (form s) then toast validation_error s
      else
        let f = form s;
            finish = (\<lambda>s'. (loadExpenses r s')\<lparr>form := reset_form now'\<rparr>)
        in case editing (editingId s) of
             Some i \<Rightarrow>
               (let s1 = call (Update_expense i (parseFloat (form_amount f)) (form_category f)
                                 (form_description f) (form_date f)) s
                in case update_result r (calls s) of
                     Rejects \<Rightarrow> toast (failure ''An unexpected error occurred'') s1
                   | Resolves (Some err) \<Rightarrow>
                       toast (failure (''Failed to update expense: '' @ err)) s1
                   | Resolves None \<Rightarrow>
                       finish ((toast (success ''Expense updated successfully!'') s1)
                                 \<lparr>editingId := None\<rparr>))
           | None \<Rightarrow>
               (let s1 = call Auth_getUser s
                in case getUser_result r (calls s) of
                     Rejects \<Rightarrow> toast (failure ''An unexpected error occurred'') s1
                   | Resolves None \<Rightarrow> navigate ''/login'' s1
                   | Resolves (Some user) \<Rightarrow>
                       (let s2 = call (Insert_expense (parseFloat (form_amount f)) (form_category f)
                                         (form_description f) (form_date f) user) s1
                        in case insert_result r (calls s1) of
                             Rejects \<Rightarrow> toast (failure ''An unexpected error occurred'') s2
                           | Resolves (Some err) \<Rightarrow>
                               toast (failure (''Failed to add expense: '' @ err)) s2
                           | Resolves None \<Rightarrow>
                               finish (toast (success ''Expense added successfully!'') s2))))"

section \<open>ExpenseCharts (ExpenseCharts.tsx)\<close>

subsection \<open>Category distribution (lines 48-65)\<close>

record CategoryItem =
  c_category :: string
  c_amount :: real
  c_percentage :: real

definition categoryData_step :: "Host \<Rightarrow> CategoryItem list \<Rightarrow> Expense \<Rightarrow> CategoryItem list" where
  "categoryData_step h acc expense =
     (case find (\<lambda>item. c_category item = category expense) acc of
        Some existing \<Rightarrow>
          update_first (\<lambda>item. c_category item = category expense)
            (\<lambda>item. item\<lparr>c_amount := plus h (c_amount item) (amount expense)\<rparr>) acc
      | None \<Rightarrow>
          acc @ [\<lparr>c_category = category expense, c_amount = amount expense, c_percentage = 0\<rparr>])"

text \<open>\<^verbatim>\<open>categoryData.reduce((sum, item) => sum + item.amount, 0)\<close>\<close>

definition chart_totalAmount :: "Host \<Rightarrow> CategoryItem list \<Rightarrow> real" where
  "chart_totalAmount h items = foldl (\<lambda>sum item. plus h sum (c_amount item)) 0 items"

text \<open>
  \<^verbatim>\<open>categoryData.forEach(item => {
       item.percentage = totalAmount > 0 ? (item.amount / totalAmount) * 100 : 0; })\<close>
\<close>

definition categoryData :: "Host \<Rightarrow> Expense list \<Rightarrow> CategoryItem list" where
  "categoryData h es =
     (let acc = foldl (categoryData_step h) [] es;
          totalAmount = chart_totalAmount h acc
      in map (\<lambda>item. item\<lparr>c_percentage :=
                 (if totalAmount > 0 then (c_amount item / totalAmount) * 100 else 0)\<rparr>) acc)"

subsection \<open>Monthly trend (lines 68-89)\<close>

record MonthItem =
  m_monthKey :: string
  m_month :: string
  m_amount :: real
  m_count :: nat

text \<open>
  \<^verbatim>\<open>`${date.getFullYear()}-${String(date.getMonth() + 1).padStart(2, '0')}`\<close>
  for \<^verbatim>\<open>date = new Date(expense.date)\<close>; an Invalid Date gives \<^verbatim>\<open>NaN-NaN\<close>.
\<close>

definition monthKey :: "Host \<Rightarrow> Expense \<Rightarrow> string" where
  "monthKey h expense =
     (let d = new_Date h (date expense)
      in toString_opt (getFullYear h d) @ ''-''
         @ padStart 2 (toString_opt (map_option (\<lambda>m. m + 1) (getMonth h d))))"

definition monthlyData_step :: "Host \<Rightarrow> MonthItem list \<Rightarrow> Expense \<Rightarrow> MonthItem list" where
  "monthlyData_step h acc expense =
     (case find (\<lambda>item. m_monthKey item = monthKey h expense) acc of
        Some existing \<Rightarrow>
          update_first (\<lambda>item. m_monthKey item = monthKey h expense)
            (\<lambda>item. item\<lparr>m_amount := plus h (m_amount item) (amount expense),
                          m_count := m_count item + 1\<rparr>) acc
      | None \<Rightarrow>
          acc @ [\<lparr>m_monthKey = monthKey h expense,
                  m_month = monthLabel h (new_Date h (date expense)),
                  m_amount = amount expense, m_count = 1\<rparr>])"

text \<open>
  \<^verbatim>\<open>monthlyData.sort((a, b) => a.monthKey.localeCompare(b.monthKey))\<close>: a stable sort
  by the key. On the keys that \<open>monthKey\<close> builds (digits, \<^verbatim>\<open>-\<close> and \<^verbatim>\<open>NaN\<close>) the
  collation order of \<^verbatim>\<open>localeCompare\<close> is the lexicographic order on the characters.
\<close>

definition monthlyData :: "Host \<Rightarrow> Expense list \<Rightarrow> MonthItem list" where
  "monthlyData h es = sort_key m_monthKey (foldl (monthlyData_step h) [] es)"

subsection \<open>Daily trend (lines 92-115)\<close>

record DayItem =
  d_date :: string
  d_amount :: real
  d_displayDate :: string

text \<open>
  \<^verbatim>\<open>const thirtyDaysAgo = new Date();
    thirtyDaysAgo.setDate(thirtyDaysAgo.getDate() - 30);\<close>
  with \<open>now\<close> the time value of \<^verbatim>\<open>new Date()\<close>.
\<close>

definition thirtyDaysAgo :: "Host \<Rightarrow> int \<Rightarrow> int" where
  "thirtyDaysAgo h now = setDate h now (getDate h now - 30)"

text \<open>
  \<^verbatim>\<open>expenseDate >= thirtyDaysAgo\<close> for \<^verbatim>\<open>expenseDate = new Date(expense.date)\<close>: a
  comparison of the time values, false for an Invalid Date.
\<close>

definition dailyData_filter :: "Host \<Rightarrow> int \<Rightarrow> Expense \<Rightarrow> bool" where
  "dailyData_filter h now expense =
     (case new_Date h (date expense) of
        None \<Rightarrow> False
      | Some expenseDate \<Rightarrow> expenseDate \<ge> thirtyDaysAgo h now)"

definition dailyData_step :: "Host \<Rightarrow> DayItem list \<Rightarrow> Expense \<Rightarrow> DayItem list" where
  "dailyData_step h acc expense =
     (case find (\<lambda>item. d_date item = date expense) acc of
        Some existing \<Rightarrow>
          update_first (\<lambda>item. d_date item = date expense)
            (\<lambda>item. item\<lparr>d_amount := plus h (d_amount item) (amount expense)\<rparr>) acc
      | None \<Rightarrow>
          acc @ [\<lparr>d_date = date expense, d_amount = amount expense,
                  d_displayDate = dayLabel h (new_Date h (date expense))\<rparr>])"

text \<open>
  The filter function computes \<^verbatim>\<open>thirtyDaysAgo\<close> anew each time it is called:
  \<open>clock i\<close> is the time value of the \<^verbatim>\<open>new Date()\<close> of its call on the record at
  index \<open>i\<close>. The records that pass are grouped by their date string, and
  \<^verbatim>\<open>dailyData.sort((a, b) => a.date.localeCompare(b.date))\<close> sorts the groups.
\<close>

definition dailyData_kept :: "Host \<Rightarrow> (nat \<Rightarrow> int) \<Rightarrow> Expense list \<Rightarrow> Expense list" where
  "dailyData_kept h clock es =
     map snd (filter (\<lambda>(i, expense). dailyData_filter h (clock i) expense) (enumerate 0 es))"

definition dailyData :: "Host \<Rightarrow> (nat \<Rightarrow> int) \<Rightarrow> Expense list \<Rightarrow> DayItem list" where
  "dailyData h clock es =
     sort_key d_date (foldl (dailyData_step h) [] (dailyData_kept h clock es))"

section \<open>Concrete records and states\<close>

text \<open>
  The state a freshly mounted component has (lines 32-40): no records, an empty form
  with today's date, no edit in progress, the filter on \<^verbatim>\<open>all\<close>; the persisted
  variant starts loading, with no remote call made yet.
\<close>

definition initial :: "int \<Rightarrow> State" where
  "initial now = \<lparr>expenses = [], form = reset_form now, editingId = None,
                   filterCategory = ''all'', toasts = []\<rparr>"

definition initial_remote :: "int \<Rightarrow> PState" where
  "initial_remote now = \<lparr>expenses = [], form = reset_form now, editingId = None,
      filterCategory = ''all'', toasts = [], loading = True, calls = [], navigated = []\<rparr>"

text \<open>A remote that cannot be reached: every call throws.\<close>

definition offline :: Remote where
  "offline = \<lparr>getUser_result = (\<lambda>log. Rejects), select_result = (\<lambda>log. Rejects),
              update_result = (\<lambda>log. Rejects), insert_result = (\<lambda>log. Rejects)\<rparr>"

text \<open>
  \<^verbatim>\<open>parseFloat\<close> on the strings the concrete runs use, which are strings of decimal
  digits: the number the digits denote.
\<close>

definition parse_digits :: "string \<Rightarrow> real" where
  "parse_digits s = (case number s of Some n \<Rightarrow> of_int n | None \<Rightarrow> 0)"

text \<open>
  Two instants, 2024-01-15T10:00Z and 2024-03-15T17:00Z, and a clock that shows the same
  instant at every reading of a render.
\<close>

definition jan15 :: int where
  "jan15 = 1705312800000"

definition mar15 :: int where
  "mar15 = 1710522000000"

definition steady :: "int \<Rightarrow> nat \<Rightarrow> int" where
  "steady now i = now"

text \<open>The three records of the specification's example.\<close>

definition spec_records :: "Expense list" where
  "spec_records =
     [\<lparr>id' = ''1'', amount = 100, category = ''Food'', description = ''a'', date = ''2024-01-05''\<rparr>,
      \<lparr>id' = ''2'', amount = 50, category = ''Food'', description = ''b'', date = ''2024-02-10''\<rparr>,
      \<lparr>id' = ''3'', amount = 30, category = ''Transport'', description = ''c'', date = ''2024-01-20''\<rparr>]"

text \<open>The same records with the list filtered on one category, present or not.\<close>

definition food_only :: State where
  "food_only = (initial 0)\<lparr>expenses := spec_records, filterCategory := ''Food''\<rparr>"

definition travel_only :: State where
  "travel_only = (initial 0)\<lparr>expenses := spec_records, filterCategory := ''Travel''\<rparr>"

text \<open>A single record with the amount 0 (the form accepts the input \<^verbatim>\<open>0\<close>).\<close>

definition zero_amount :: State where
  "zero_amount = (initial 0)\<lparr>expenses :=
     [\<lparr>id' = ''1'', amount = 0, category = ''Other'', description = ''free sample'',
       date = ''2024-01-05''\<rparr>]\<rparr>"

text \<open>A record dated after \<open>jan15\<close>, and one dated on the first day of a month.\<close>

definition future_record :: Expense where
  "future_record = \<lparr>id' = ''4'', amount = 20, category = ''Travel'', description = ''flight'',
                     date = ''2024-03-01''\<rparr>"

definition march_first :: Expense where
  "march_first = \<lparr>id' = ''5'', amount = 20, category = ''Shopping'', description = ''shoes'',
                   date = ''2024-03-01''\<rparr>"

text \<open>Records of January 2023, January 2024 and February 2024.\<close>

definition januaries :: "Expense list" where
  "januaries =
     [\<lparr>id' = ''1'', amount = 7, category = ''Food'', description = ''a'', date = ''2023-01-10''\<rparr>,
      \<lparr>id' = ''2'', amount = 100, category = ''Food'', description = ''b'', date = ''2024-01-05''\<rparr>,
      \<lparr>id' = ''3'', amount = 50, category = ''Food'', description = ''c'', date = ''2024-02-10''\<rparr>]"

text \<open>
  A filled form, the state after submitting it in a fresh component at \<open>jan15\<close>, and
  the state after filling and submitting it once more at the same clock reading.
\<close>

definition taxi :: Form where
  "taxi = \<lparr>form_amount = ''25'', form_category = ''Transportation'',
           form_description = ''taxi'', form_date = ''2024-01-15''\<rparr>"

definition first_submit :: State where
  "first_submit = handleSubmit parse_digits jan15 jan15 ((initial jan15)\<lparr>form := taxi\<rparr>)"

definition second_submit :: State where
  "second_submit = handleSubmit parse_digits jan15 jan15 (first_submit\<lparr>form := taxi\<rparr>)"


text \<open>
  The second of the three records of the example is being edited: the state after
  \<^verbatim>\<open>handleEdit\<close> on that record (whose amount is rendered as \<^verbatim>\<open>50\<close>) and a change of
  every field of the form.
\<close>

definition editing_second :: State where
  "editing_second =
     (handleEdit (\<lambda>a. ''50'') (spec_records ! 1) ((initial jan15)\<lparr>expenses := spec_records\<rparr>))
       \<lparr>form := \<lparr>form_amount = ''75'', form_category = ''Shopping'',
                  form_description = ''shoes'', form_date = ''2024-02-11''\<rparr>\<rparr>"


section \<open>Folds and grouping\<close>

text \<open>
  The three grouping loops of ExpenseCharts (and the dictionary of ExpenseCalculator)
  have one shape: look for the group of the record's key; when there is one, update
  it in place, otherwise append a new group. The groups then have pairwise distinct
  keys, the keys are those of the records, and the value of a group is what the new
  group of the first record with the key held, with the later records of that key
  added to it one by one, in the order of the list. Nothing is assumed of the
  addition \<open>add\<close>.
\<close>

lemma foldl_plus: "foldl (\<lambda>s x. s + f x) a xs = (a::'a::monoid_add) + sum_list (map f xs)"
  by (induction xs arbitrary: a) (simp_all add: add.assoc)

lemma update_first_map:
  "distinct (map key xs) \<Longrightarrow>
   update_first (\<lambda>x. key x = k) f xs = map (\<lambda>x. if key x = k then f x else x) xs"
proof (induction xs)
  case Nil
  then show ?case by simp
next
  case (Cons x xs)
  show ?case
  proof (cases "key x = k")
    case True
    with Cons.prems have "\<forall>y \<in> set xs. key y \<noteq> k" by (auto simp: image_iff)
    then have "map (\<lambda>x. if key x = k then f x else x) xs = xs"
      by (simp add: map_idI)
    with True show ?thesis by simp
  next
    case False
    with Cons show ?thesis by simp
  qed
qed

lemma filter_key_absent: "k \<notin> f ` set xs \<Longrightarrow> filter (\<lambda>e. f e = k) xs = []"
  by (induction xs) auto

lemma find_key_None: "find (\<lambda>it. key it = k) acc = None \<longleftrightarrow> k \<notin> key ` set acc"
  by (auto simp: find_None_iff)

lemma group_fold_keys:
  assumes step: "\<And>acc e. step acc e =
      (case find (\<lambda>it. key it = kf e) acc of
         Some x \<Rightarrow> update_first (\<lambda>it. key it = kf e) (upd e) acc
       | None \<Rightarrow> acc @ [new e])"
    and key_upd: "\<And>e it. key (upd e it) = key it"
    and key_new: "\<And>e. key (new e) = kf e"
  shows "distinct (map key (foldl step [] xs)) \<and> key ` set (foldl step [] xs) = kf ` set xs"
proof (induction xs rule: rev_induct)
  case Nil
  then show ?case by simp
next
  case (snoc e xs)
  let ?acc = "foldl step [] xs"
  from snoc have d: "distinct (map key ?acc)" and ks: "key ` set ?acc = kf ` set xs"
    by simp_all
  show ?case
  proof (cases "find (\<lambda>it. key it = kf e) ?acc")
    case None
    then have new: "kf e \<notin> key ` set ?acc" by (simp add: find_key_None)
    have "foldl step [] (xs @ [e]) = ?acc @ [new e]"
      using None by (simp add: step)
    with d ks new show ?thesis by (simp add: key_new)
  next
    case (Some x)
    have old: "kf e \<in> key ` set ?acc"
    proof (rule ccontr)
      assume "kf e \<notin> key ` set ?acc"
      then have "find (\<lambda>it. key it = kf e) ?acc = None" by (simp add: find_key_None)
      with Some show False by simp
    qed
    have eq: "foldl step [] (xs @ [e]) = map (\<lambda>it. if key it = kf e then upd e it else it) ?acc"
      using Some d by (simp add: step update_first_map)
    have km: "map key (map (\<lambda>it. if key it = kf e then upd e it else it) ?acc) = map key ?acc"
      by (simp add: key_upd)
    have d': "distinct (map key (foldl step [] (xs @ [e])))"
      unfolding eq km by (rule d)
    have "key ` set (foldl step [] (xs @ [e])) = key ` set ?acc"
      using km unfolding eq by (metis list.set_map)
    also have "\<dots> = kf ` set (xs @ [e])"
      using ks old by auto
    finally show ?thesis using d' by simp
  qed
qed

lemma group_fold_vals:
  assumes step: "\<And>acc e. step acc e =
      (case find (\<lambda>it. key it = kf e) acc of
         Some x \<Rightarrow> update_first (\<lambda>it. key it = kf e) (upd e) acc
       | None \<Rightarrow> acc @ [new e])"
    and key_upd: "\<And>e it. key (upd e it) = key it"
    and key_new: "\<And>e. key (new e) = kf e"
    and val_upd: "\<And>e it. val (upd e it) = add (val it) (vf e)"
  shows "\<forall>it \<in> set (foldl step [] xs).
           \<exists>e0 rest. filter (\<lambda>e. kf e = key it) xs = e0 # rest
             \<and> val it = foldl (\<lambda>v e. add v (vf e)) (val (new e0)) rest"
proof (induction xs rule: rev_induct)
  case Nil
  then show ?case by simp
next
  case (snoc e xs)
  let ?acc = "foldl step [] xs"
  have keys: "distinct (map key ?acc)" "key ` set ?acc = kf ` set xs"
    using group_fold_keys [OF step key_upd key_new, where xs = xs] by simp_all
  show ?case
  proof (cases "find (\<lambda>it. key it = kf e) ?acc")
    case None
    then have new: "kf e \<notin> kf ` set xs" using keys(2) by (simp add: find_key_None)
    then have none: "filter (\<lambda>e'. kf e' = kf e) xs = []"
      by (rule filter_key_absent)
    have eq: "foldl step [] (xs @ [e]) = ?acc @ [new e]"
      using None by (simp add: step)
    show ?thesis
    proof
      fix it assume "it \<in> set (foldl step [] (xs @ [e]))"
      then consider "it \<in> set ?acc" | "it = new e" unfolding eq by auto
      then show "\<exists>e0 rest. filter (\<lambda>e'. kf e' = key it) (xs @ [e]) = e0 # rest
             \<and> val it = foldl (\<lambda>v e. add v (vf e)) (val (new e0)) rest"
      proof cases
        case 1
        then have "key it \<noteq> kf e" using new keys(2) by (metis imageI)
        then have "filter (\<lambda>e'. kf e' = key it) (xs @ [e]) = filter (\<lambda>e'. kf e' = key it) xs"
          by auto
        with 1 snoc show ?thesis by simp
      next
        case 2
        then have "filter (\<lambda>e'. kf e' = key it) (xs @ [e]) = [e]"
          using none by (simp add: key_new)
        with 2 show ?thesis by simp
      qed
    qed
  next
    case (Some x)
    have eq: "foldl step [] (xs @ [e]) = map (\<lambda>it. if key it = kf e then upd e it else it) ?acc"
      using Some keys(1) by (simp add: step update_first_map)
    show ?thesis
    proof
      fix it assume "it \<in> set (foldl step [] (xs @ [e]))"
      then obtain it0 where it0: "it0 \<in> set ?acc"
          "it = (if key it0 = kf e then upd e it0 else it0)"
        unfolding eq by auto
      from it0(1) snoc obtain e0 rest where
        v0: "filter (\<lambda>e'. kf e' = key it0) xs = e0 # rest"
          "val it0 = foldl (\<lambda>v e. add v (vf e)) (val (new e0)) rest"
        by blast
      show "\<exists>e0 rest. filter (\<lambda>e'. kf e' = key it) (xs @ [e]) = e0 # rest
             \<and> val it = foldl (\<lambda>v e. add v (vf e)) (val (new e0)) rest"
      proof (cases "key it0 = kf e")
        case True
        then have "filter (\<lambda>e'. kf e' = key it) (xs @ [e]) = e0 # (rest @ [e])"
          using it0(2) v0(1) by (simp add: key_upd)
        moreover have "val it = foldl (\<lambda>v e. add v (vf e)) (val (new e0)) (rest @ [e])"
          using True it0(2) v0(2) by (simp add: val_upd)
        ultimately show ?thesis by blast
      next
        case False
        then have "filter (\<lambda>e'. kf e' = key it) (xs @ [e]) = e0 # rest"
          using it0(2) v0(1) by auto
        moreover have "val it = foldl (\<lambda>v e. add v (vf e)) (val (new e0)) rest"
          using False it0(2) v0(2) by simp
        ultimately show ?thesis by blast
      qed
    qed
  qed
qed

text \<open>
  The sums of the groups of a list, one group for each key of a list of pairwise
  distinct keys that holds every key of the list, add up to the sum of the list.
\<close>

lemma sum_list_groups:
  fixes f :: "'a \<Rightarrow> 'v::comm_monoid_add"
  assumes "distinct ks" "kf ` set xs \<subseteq> set ks"
  shows "sum_list (map (\<lambda>k. sum_list (map f (filter (\<lambda>e. kf e = k) xs))) ks)
           = sum_list (map f xs)"
  using assms(2)
proof (induction xs)
  case Nil
  then show ?case by simp
next
  case (Cons x xs)
  have one: "sum_list (map (\<lambda>k. if kf x = k then f x else 0) ks) = f x"
  proof -
    have "sum_list (map (\<lambda>k. if kf x = k then f x else 0) ks)
        = (\<Sum>k\<in>set ks. if kf x = k then f x else 0)"
      using assms(1) by (rule sum_list_distinct_conv_sum_set)
    also have "\<dots> = f x"
      using Cons.prems by (simp add: sum.delta')
    finally show ?thesis .
  qed
  have "sum_list (map (\<lambda>k. sum_list (map f (filter (\<lambda>e. kf e = k) (x # xs)))) ks)
      = sum_list (map (\<lambda>k. (if kf x = k then f x else 0)
                              + sum_list (map f (filter (\<lambda>e. kf e = k) xs))) ks)"
    by (rule arg_cong [where f = sum_list]) (rule map_cong, simp_all)
  also have "\<dots> = sum_list (map (\<lambda>k. if kf x = k then f x else 0) ks)
      + sum_list (map (\<lambda>k. sum_list (map f (filter (\<lambda>e. kf e = k) xs))) ks)"
    by (rule sum_list_addf)
  also have "\<dots> = f x + sum_list (map f xs)"
    using one Cons by simp
  finally show ?case by simp
qed









lemma length_as_fold: "foldl (\<lambda>v e. Suc v) (Suc 0) rest = Suc (length rest)"
  by (induction rest rule: rev_induct) simp_all

lemma enumerate_member: "(i, e) \<in> set (enumerate n es) \<Longrightarrow> e \<in> set es"
  by (auto simp: in_set_enumerate_eq)

lemma filter_enumerate_const:
  "map snd (filter (\<lambda>(i, e). P e) (enumerate n es)) = filter P es"
  by (induction es arbitrary: n) auto

lemma map_insort_key: "map f (insort_key f x ys) = insort (f x) (map f ys)"
  by (induction ys) auto

lemma map_sort_key: "map f (sort_key f xs) = sort (map f xs)"
  by (induction xs) (simp_all add: map_insort_key)

lemma strict_sorted_sort_key:
  "distinct (map f xs) \<Longrightarrow> sorted_wrt (<) (map f (sort_key f xs))"
  by (simp add: map_sort_key strict_sorted_iff)


section \<open>The calendar\<close>

text \<open>
  The two conversions between day numbers and civil dates are inverse to each other on
  the dates of the proleptic Gregorian calendar. With it, the local year and month that
  the concrete host reads from a parsed date-only string are the year and month of
  the string whenever the host is at or east of UTC, and also on a host west of UTC
  unless the date is the first day of a month: midnight UTC of a day is the evening
  of the day before in a zone west of UTC.
\<close>

lemma div_eqI:
  fixes x n k r :: int
  assumes "x = n * k + r" "0 \<le> r" "r < n"
  shows "x div n = k"
proof -
  have "n \<noteq> 0" using assms(2,3) by simp
  then have "(n * k + r) div n = k + r div n" by simp
  also have "r div n = 0" using assms(2,3) by (rule div_pos_pos_trivial)
  finally show ?thesis using assms(1) by simp
qed

lemma mod_eqI:
  fixes x n k r :: int
  assumes "x = n * k + r" "0 \<le> r" "r < n"
  shows "x mod n = r"
proof -
  have "(n * k + r) mod n = r mod n" by simp
  also have "r mod n = r" using assms(2,3) by (rule mod_pos_pos_trivial)
  finally show ?thesis using assms(1) by simp
qed

lemma year_part:
  fixes yoe doy :: int
  assumes "0 \<le> yoe" "yoe < 400" "0 \<le> doy" "doy \<le> 365"
    and leap: "doy = 365 \<Longrightarrow> (yoe + 1) mod 4 = 0 \<and> ((yoe + 1) mod 100 \<noteq> 0 \<or> yoe = 399)"
  defines "doe \<equiv> yoe * 365 + yoe div 4 - yoe div 100 + doy"
  shows "(doe - doe div 1460 + doe div 36524 - doe div 146096) div 365 = yoe"
proof -
  define c where "c = yoe div 100"
  define w where "w = yoe mod 100"
  define q where "q = w div 4"
  define r where "r = w mod 4"
  have w: "yoe = 100 * c + w" "0 \<le> w" "w < 100"
    unfolding c_def w_def by simp_all
  have r: "w = 4 * q + r" "0 \<le> r" "r < 4"
    unfolding q_def r_def by simp_all
  have yoe: "yoe = 100 * c + 4 * q + r"
    using w(1) r(1) by simp
  have c: "0 \<le> c" "c \<le> 3"
    using w assms(1,2) by arith+
  have q: "0 \<le> q" "q \<le> 24"
    using r w(2,3) by arith+
  have d100: "yoe div 100 = c"
    by (simp add: c_def)
  have d4: "yoe div 4 = 25 * c + q"
    by (rule div_eqI [where r = r]) (use yoe r in simp_all)
  have doe: "doe = 36524 * c + 1461 * q + 365 * r + doy"
  proof -
    have "doe = yoe * 365 + (25 * c + q) - c + doy"
      unfolding doe_def d4 d100 by simp
    then show ?thesis by (simp add: yoe)
  qed
  show ?thesis
  proof (cases "doy = 365 \<and> yoe = 399")
    case True
    then have "doe = 146096" unfolding doe_def by simp
    with True show ?thesis by simp
  next
    case False
    have r3: "r = 3" if "doy = 365"
    proof -
      from leap [OF that] have "(yoe + 1) mod 4 = 0" by simp
      moreover have "(yoe + 1) mod 4 = (r + 1) mod 4"
      proof -
        have "yoe + 1 = 4 * (25 * c + q) + (r + 1)" using yoe by simp
        then show ?thesis by (metis mod_mult_self4)
      qed
      ultimately show ?thesis using r(2,3) by arith
    qed
    have not_last: "\<not> (q = 24 \<and> r = 3)" if "doy = 365"
    proof
      assume "q = 24 \<and> r = 3"
      then have "yoe + 1 = 100 * (c + 1) + 0" using yoe by simp
      then have "(yoe + 1) mod 100 = 0" by (rule mod_eqI) simp_all
      with leap [OF that] False that show False by simp
    qed
    have T: "1461 * q + 365 * r + doy < 36524"
      using q r(2,3) assms(3,4) not_last by arith
    have T0: "0 \<le> 1461 * q + 365 * r + doy"
      using q r(2) assms(3) by arith
    have e1: "doe div 36524 = c"
      by (rule div_eqI [where r = "1461 * q + 365 * r + doy"]) (use doe T T0 in simp_all)
    have "doe < 146096" unfolding doe using T c by arith
    moreover have "0 \<le> doe" unfolding doe using T0 c by arith
    ultimately have e2: "doe div 146096 = 0" by simp
    define R where "R = 24 * c + q + 365 * r + doy"
    define b :: int where "b = (if R \<ge> 1460 then 1 else 0)"
    have R: "0 \<le> R" "R < 2920" unfolding R_def using c q r(2,3) assms(3,4) by arith+
    have e3: "doe div 1460 = 25 * c + q + b"
    proof (rule div_eqI [where r = "R - 1460 * b"])
      show "doe = 1460 * (25 * c + q + b) + (R - 1460 * b)"
        unfolding doe R_def by simp
      show "0 \<le> R - 1460 * b" "R - 1460 * b < 1460"
        unfolding b_def using R by auto
    qed
    have num: "doe - doe div 1460 + doe div 36524 - doe div 146096 = 365 * yoe + (doy - b)"
      unfolding e1 e2 e3 unfolding doe yoe by simp
    have lo: "0 \<le> doy - b"
    proof (cases "R \<ge> 1460")
      case True
      then have "doy \<ge> 1" unfolding R_def using c q r(3) by arith
      then show ?thesis unfolding b_def by simp
    next
      case False
      then show ?thesis unfolding b_def using assms(3) by simp
    qed
    have hi: "doy - b \<le> 364"
    proof (cases "doy = 365")
      case True
      then have "R \<ge> 1460" unfolding R_def using r3 c q by simp
      then show ?thesis unfolding b_def using True by simp
    next
      case False
      then show ?thesis unfolding b_def using assms(4) by auto
    qed
    show ?thesis
      unfolding num by (rule div_eqI [where r = "doy - b"]) (use lo hi in simp_all)
  qed
qed

lemma month_part:
  fixes mp d :: int
  assumes "0 \<le> mp" "mp \<le> 11" "1 \<le> d" "d \<le> 31"
    and "mp = 1 \<or> mp = 3 \<or> mp = 6 \<or> mp = 8 \<Longrightarrow> d \<le> 30"
    and "mp = 11 \<Longrightarrow> d \<le> 29"
  shows "(5 * ((153 * mp + 2) div 5 + d - 1) + 2) div 153 = mp"
proof -
  from assms(1,2) have "mp = 0 \<or> mp = 1 \<or> mp = 2 \<or> mp = 3 \<or> mp = 4 \<or> mp = 5
    \<or> mp = 6 \<or> mp = 7 \<or> mp = 8 \<or> mp = 9 \<or> mp = 10 \<or> mp = 11"
    by arith
  then show ?thesis
    using assms(3-6) by (elim disjE) simp_all
qed


lemma civil_from_days_eq:
  assumes z: "z0 + 719468 = era * 146097 + doe" and doe: "0 \<le> doe" "doe < 146097"
    and yoe: "(doe - doe div 1460 + doe div 36524 - doe div 146096) div 365 = yoe"
    and doy: "doe - (365 * yoe + yoe div 4 - yoe div 100) = doy"
    and mp: "(5 * doy + 2) div 153 = mp"
  shows "civil_from_days z0 =
     (if (if mp < 10 then mp + 3 else mp - 9) \<le> 2 then yoe + era * 400 + 1 else yoe + era * 400,
      if mp < 10 then mp + 3 else mp - 9,
      doy - (153 * mp + 2) div 5 + 1)"
proof -
  have era: "(z0 + 719468) div 146097 = era"
    by (rule div_eqI [where r = doe]) (use z doe in simp_all)
  have doe': "z0 + 719468 - era * 146097 = doe"
    using z by simp
  show ?thesis
    unfolding civil_from_days_def Let_def era doe' yoe doy mp by (rule refl)
qed

lemma civil_from_days_days_from_civil:
  assumes m: "1 \<le> m" "m \<le> 12" and d: "1 \<le> d" "d \<le> daysInMonth y m"
  shows "civil_from_days (days_from_civil y m d) = (y, m, d)"
proof -
  define y' where "y' = (if m \<le> 2 then y - 1 else y)"
  define era where "era = y' div 400"
  define yoe where "yoe = y' - era * 400"
  define mp where "mp = (if m > 2 then m - 3 else m + 9)"
  define doy where "doy = (153 * mp + 2) div 5 + d - 1"
  define doe where "doe = yoe * 365 + yoe div 4 - yoe div 100 + doy"
  have dfc: "days_from_civil y m d = era * 146097 + doe - 719468"
    unfolding days_from_civil_def Let_def doe_def doy_def mp_def yoe_def era_def y'_def
    by (rule refl)
  have yoe_mod: "yoe = y' mod 400"
    unfolding yoe_def era_def by (simp add: minus_div_mult_eq_mod)
  then have yoe: "0 \<le> yoe" "yoe < 400" by simp_all
  have mp: "0 \<le> mp" "mp \<le> 11"
    unfolding mp_def using m by auto
  have d31: "d \<le> 31"
    using d(2) unfolding daysInMonth_def by (auto split: if_splits)
  have d30: "d \<le> 30" if "mp = 1 \<or> mp = 3 \<or> mp = 6 \<or> mp = 8"
    using that d(2) m unfolding daysInMonth_def mp_def by (auto split: if_splits)
  have feb: "m = 2" if "mp = 11"
    using that m unfolding mp_def by (auto split: if_splits)
  have d29: "d \<le> 29" if "mp = 11"
    using feb [OF that] d(2) unfolding daysInMonth_def by (auto split: if_splits)
  have mp_cases: "mp = 0 \<or> mp = 1 \<or> mp = 2 \<or> mp = 3 \<or> mp = 4 \<or> mp = 5
    \<or> mp = 6 \<or> mp = 7 \<or> mp = 8 \<or> mp = 9 \<or> mp = 10 \<or> mp = 11"
    using mp by arith
  have doy: "0 \<le> doy" "doy \<le> 365"
    unfolding doy_def using mp_cases d(1) d31 d30 d29 by (elim disjE; simp)+
  have last: "mp = 11 \<and> d = 29" if "doy = 365"
    using that unfolding doy_def using mp_cases d(1) d31 d30 d29 by (elim disjE; simp)
  have leap: "(yoe + 1) mod 4 = 0 \<and> ((yoe + 1) mod 100 \<noteq> 0 \<or> yoe = 399)" if "doy = 365"
  proof -
    from last [OF that] have "m = 2" "d = 29" using feb by simp_all
    with d(2) have ly: "y mod 4 = 0" "y mod 100 \<noteq> 0 \<or> y mod 400 = 0"
      unfolding daysInMonth_def by (auto split: if_splits)
    have y: "y = 400 * era + (yoe + 1)"
      using \<open>m = 2\<close> unfolding yoe_def y'_def by simp
    have m4: "y mod 4 = (yoe + 1) mod 4"
    proof -
      have "y = 4 * (100 * era) + (yoe + 1)" using y by simp
      then show ?thesis by (metis mod_mult_self4)
    qed
    have m100: "y mod 100 = (yoe + 1) mod 100"
    proof -
      have "y = 100 * (4 * era) + (yoe + 1)" using y by simp
      then show ?thesis by (metis mod_mult_self4)
    qed
    have m400: "yoe = 399" if "y mod 400 = 0"
    proof -
      have eq: "y mod 400 = (yoe + 1) mod 400" using y by (metis mod_mult_self4)
      show ?thesis
      proof (rule ccontr)
        assume "yoe \<noteq> 399"
        then have "yoe + 1 < 400" using yoe by simp
        then have "(yoe + 1) mod 400 = yoe + 1" using yoe by (simp add: mod_pos_pos_trivial)
        moreover from eq that have "(yoe + 1) mod 400 = 0" by (simp only:)
        ultimately have "yoe + 1 = 0" by (simp only:)
        with yoe(1) show False by linarith
      qed
    qed
    have a: "(yoe + 1) mod 4 = 0"
      using ly(1) m4 by (simp only:)
    have b: "(yoe + 1) mod 100 \<noteq> 0 \<or> yoe = 399"
    proof (cases "y mod 400 = 0")
      case True
      from m400 [OF True] show ?thesis by (rule disjI2)
    next
      case False
      with ly(2) have "y mod 100 \<noteq> 0" by (simp only:) simp
      then have "(yoe + 1) mod 100 \<noteq> 0" unfolding m100 .
      then show ?thesis by (rule disjI1)
    qed
    from a b show ?thesis by (rule conjI)
  qed
  have yp: "(doe - doe div 1460 + doe div 36524 - doe div 146096) div 365 = yoe"
    unfolding doe_def by (rule year_part) (use yoe doy leap in simp_all)
  have doe_bounds: "0 \<le> doe" "doe < 146097"
    unfolding doe_def using yoe doy by arith+
  have doy': "doe - (365 * yoe + yoe div 4 - yoe div 100) = doy"
    unfolding doe_def by simp
  have mp': "(5 * doy + 2) div 153 = mp"
    unfolding doy_def using month_part [OF mp d(1) d31 d30 d29] by simp
  have z: "days_from_civil y m d + 719468 = era * 146097 + doe"
    unfolding dfc by simp
  have "civil_from_days (days_from_civil y m d) =
     (if (if mp < 10 then mp + 3 else mp - 9) \<le> 2 then yoe + era * 400 + 1 else yoe + era * 400,
      if mp < 10 then mp + 3 else mp - 9,
      doy - (153 * mp + 2) div 5 + 1)"
    by (rule civil_from_days_eq [OF z doe_bounds yp doy' mp'])
  also have "(if mp < 10 then mp + 3 else mp - 9) = m"
    unfolding mp_def using m by auto
  also have "doy - (153 * mp + 2) div 5 + 1 = d"
    unfolding doy_def by simp
  also have "(if m \<le> 2 then yoe + era * 400 + 1 else yoe + era * 400) = y"
    unfolding yoe_def y'_def by simp
  finally show ?thesis .
qed

lemma iso_fields_range:
  "iso_fields s = Some (y, m, d) \<Longrightarrow> 1 \<le> m \<and> m \<le> 12 \<and> 1 \<le> d \<and> d \<le> 31"
  by (auto simp: iso_fields_def split: if_splits option.splits)

lemma Day_east_of_UTC:
  assumes "0 \<le> tz" "tz < 1440"
  shows "Day (n * msPerDay + tz * 60000) = n"
  unfolding Day_def msPerDay_def
  by (rule div_eqI [where r = "tz * 60000"]) (use assms in simp_all)

lemma Day_west_of_UTC:
  assumes "- 1440 < tz" "tz < 0"
  shows "Day (n * msPerDay + tz * 60000) = n - 1"
  unfolding Day_def msPerDay_def
  by (rule div_eqI [where r = "86400000 + tz * 60000"]) (use assms in simp_all)

lemma days_from_civil_pred: "days_from_civil y m (d - 1) = days_from_civil y m d - 1"
  unfolding days_from_civil_def Let_def by simp

lemma host_parses_fields:
  "new_Date (host tz) s =
     (case iso_fields s of None \<Rightarrow> None
      | Some (y, m, d) \<Rightarrow> Some (days_from_civil y m d * msPerDay))"
  by (simp add: host_def iso_parse_def split: option.splits)

lemma local_fields:
  assumes tz: "- 1440 < tz" "tz < 1440"
    and fields: "iso_fields s = Some (y, m, d)" and valid: "d \<le> daysInMonth y m"
    and not_first: "0 \<le> tz \<or> 2 \<le> d"
  shows "civil_from_days (Day (LocalTime (host tz) (days_from_civil y m d * msPerDay)))
           = (y, m, if 0 \<le> tz then d else d - 1)"
proof (cases "0 \<le> tz")
  case True
  then have "Day (LocalTime (host tz) (days_from_civil y m d * msPerDay)) = days_from_civil y m d"
    using Day_east_of_UTC [OF True tz(2)] by (simp add: host_def)
  moreover have "civil_from_days (days_from_civil y m d) = (y, m, d)"
    using iso_fields_range [OF fields] valid by (intro civil_from_days_days_from_civil) simp_all
  ultimately show ?thesis using True by simp
next
  case False
  then have west: "tz < 0" and d: "2 \<le> d" using not_first by simp_all
  have "Day (LocalTime (host tz) (days_from_civil y m d * msPerDay)) = days_from_civil y m d - 1"
    using Day_west_of_UTC [OF tz(1) west] by (simp add: host_def)
  also have "\<dots> = days_from_civil y m (d - 1)"
    by (simp add: days_from_civil_pred)
  finally have "Day (LocalTime (host tz) (days_from_civil y m d * msPerDay))
      = days_from_civil y m (d - 1)" .
  moreover have "civil_from_days (days_from_civil y m (d - 1)) = (y, m, d - 1)"
    using iso_fields_range [OF fields] valid d by (intro civil_from_days_days_from_civil) simp_all
  ultimately show ?thesis using False by simp
qed

lemma getMonth_own_month:
  assumes "- 1440 < tz" "tz < 1440"
    and "iso_fields s = Some (y, m, d)" and "d \<le> daysInMonth y m" and "0 \<le> tz \<or> 2 \<le> d"
  shows "getMonth (host tz) (new_Date (host tz) s) = Some (m - 1)"
    and "getFullYear (host tz) (new_Date (host tz) s) = Some y"
  using local_fields [OF assms] assms(3)
  by (simp_all add: getMonth_def getFullYear_def host_parses_fields MonthFromTime_def
      YearFromTime_def)


section \<open>Category totals and the displayed total\<close>

lemma or0_simps [simp]: "or0 None = 0" "or0 (Some x) = x"
  by (simp_all add: or0_def)

lemma EXPENSE_CATEGORIES_not_inherited:
  "\<forall>c \<in> set EXPENSE_CATEGORIES. c \<notin> set Object_prototype_properties"
  by (simp add: EXPENSE_CATEGORIES_def Object_prototype_properties_def)





lemma categoryData_fields:
  "map c_category (categoryData h es) = map c_category (foldl (categoryData_step h) [] es)"
  "map c_amount (categoryData h es) = map c_amount (foldl (categoryData_step h) [] es)"
  by (simp_all add: categoryData_def Let_def)

lemma categoryData_member:
  assumes "g \<in> set (categoryData h es)"
  shows "\<exists>g0 \<in> set (foldl (categoryData_step h) [] es).
           c_category g = c_category g0 \<and> c_amount g = c_amount g0"
  using assms by (auto simp: categoryData_def Let_def)

lemma categoryData_keys:
  "distinct (map c_category (categoryData h es))
   \<and> c_category ` set (categoryData h es) = category ` set es"
proof -
  have "distinct (map c_category (foldl (categoryData_step h) [] es))
     \<and> c_category ` set (foldl (categoryData_step h) [] es) = category ` set es"
    by (rule group_fold_keys [where
          upd = "\<lambda>e item. item\<lparr>c_amount := plus h (c_amount item) (amount e)\<rparr>"
          and new = "\<lambda>e. \<lparr>c_category = category e, c_amount = amount e, c_percentage = 0\<rparr>"])
       (simp_all add: categoryData_step_def)
  moreover have "c_category ` set (categoryData h es) = set (map c_category (categoryData h es))"
    by simp
  ultimately show ?thesis
    unfolding categoryData_fields by simp
qed

lemma categoryData_vals:
  "\<forall>g \<in> set (categoryData h es).
     \<exists>e rest. filter (\<lambda>x. category x = c_category g) es = e # rest
       \<and> c_amount g = foldl (\<lambda>v x. plus h v (amount x)) (amount e) rest"
proof
  fix g assume "g \<in> set (categoryData h es)"
  then obtain g0 where g0: "g0 \<in> set (foldl (categoryData_step h) [] es)"
      "c_category g = c_category g0" "c_amount g = c_amount g0"
    using categoryData_member by blast
  from g0(1) group_fold_vals [where step = "categoryData_step h" and key = c_category
      and kf = category
      and upd = "\<lambda>e item. item\<lparr>c_amount := plus h (c_amount item) (amount e)\<rparr>"
      and new = "\<lambda>e. \<lparr>c_category = category e, c_amount = amount e, c_percentage = 0\<rparr>"
      and val = c_amount and add = "plus h" and vf = amount and xs = es]
  obtain e rest where "filter (\<lambda>x. category x = c_category g0) es = e # rest"
    "c_amount g0 = foldl (\<lambda>v x. plus h v (amount x)) (amount e) rest"
    by (auto simp: categoryData_step_def)
  with g0(2,3) show "\<exists>e rest. filter (\<lambda>x. category x = c_category g) es = e # rest
       \<and> c_amount g = foldl (\<lambda>v x. plus h v (amount x)) (amount e) rest"
    by simp
qed














section \<open>Percentage shares\<close>

text \<open>
  In ExpenseCharts the share of a category is its amount over \<^verbatim>\<open>totalAmount\<close>, the sum
  of the amounts of the chart entries, times 100, when that sum is positive, and 0
  otherwise. In exact arithmetic the shares then add up to 100.
\<close>

lemma sum_list_scaled: "sum_list (map (\<lambda>x. f x / c * 100) xs) = sum_list (map f xs) / (c::real) * 100"
  by (induction xs) (simp_all add: add_divide_distrib distrib_right)

lemma chart_totalAmount_categoryData:
  "chart_totalAmount h (categoryData h es) = chart_totalAmount h (foldl (categoryData_step h) [] es)"
proof -
  have "chart_totalAmount h items = foldl (plus h) 0 (map c_amount items)" for items
    by (simp add: chart_totalAmount_def foldl_map)
  then show ?thesis by (simp add: categoryData_fields)
qed

lemma categoryData_percentages:
  "\<forall>item \<in> set (categoryData h es).
     c_percentage item =
       (if chart_totalAmount h (categoryData h es) > 0
        then c_amount item / chart_totalAmount h (categoryData h es) * 100 else 0)"
  unfolding chart_totalAmount_categoryData
  by (simp add: categoryData_def Let_def)

lemma categoryData_percentages_sum:
  assumes "plus h = (+)"
  shows "sum_list (map c_percentage (categoryData h es))
    = (if sum_list (map amount es) > 0 then 100 else 0)"
proof -
  let ?acc = "foldl (categoryData_step h) [] es"
  let ?T = "chart_totalAmount h ?acc"
  have T: "?T = sum_list (map c_amount ?acc)"
    using assms by (simp add: chart_totalAmount_def foldl_plus)
  have "\<forall>g \<in> set (categoryData h es).
      c_amount g = sum_list (map amount (filter (\<lambda>e. category e = c_category g) es))"
  proof
    fix g assume "g \<in> set (categoryData h es)"
    with categoryData_vals obtain e rest where
      "filter (\<lambda>x. category x = c_category g) es = e # rest"
      "c_amount g = foldl (\<lambda>v x. plus h v (amount x)) (amount e) rest"
      by blast
    then show "c_amount g = sum_list (map amount (filter (\<lambda>e. category e = c_category g) es))"
      using assms by (simp add: foldl_plus)
  qed
  then have "map c_amount (categoryData h es)
      = map (\<lambda>k. sum_list (map amount (filter (\<lambda>e. category e = k) es)))
          (map c_category (categoryData h es))"
    by (simp add: comp_def)
  then have "sum_list (map c_amount (categoryData h es)) = sum_list (map amount es)"
    using categoryData_keys [of h es] by (simp only:) (rule sum_list_groups, simp_all)
  then have total: "?T = sum_list (map amount es)"
    unfolding T by (simp add: categoryData_fields)
  show ?thesis
  proof (cases "sum_list (map amount es) > 0")
    case True
    then have "sum_list (map c_percentage (categoryData h es))
        = sum_list (map (\<lambda>item. c_amount item / sum_list (map amount es) * 100) ?acc)"
      by (simp add: categoryData_def Let_def total comp_def)
    also have "\<dots> = sum_list (map c_amount ?acc) / sum_list (map amount es) * 100"
      by (rule sum_list_scaled)
    finally show ?thesis using True total T by simp
  next
    case False
    then show ?thesis
      by (simp add: categoryData_def Let_def total comp_def)
  qed
qed

text \<open>
  C2. The specification asks for the same in the Category Breakdown card of
  ExpenseCalculator: the share is the category's total over the grand total, times
  100, and exactly 0 when the grand total is 0. The card divides by \<^verbatim>\<open>totalAmount\<close> without a guard, and that
  is the total of the filtered list. With one record of amount 0 the share is
  \<^verbatim>\<open>0 / 0 * 100\<close>, NaN, where ExpenseCharts gives 0 for the same record; with the
  filter on a category that no record has, every share is \<^verbatim>\<open>Infinity\<close>; and with the
  filter on \<^verbatim>\<open>Food\<close> the shares of the specification's example are 100 and 20.
\<close>

theorem categoryBreakdown_divides_by_zero:
  "totalAmount (host 0) zero_amount = 0
   \<and> categoryBreakdown (host 0) zero_amount = [(''Other'', 0, NaN)]
   \<and> map c_percentage (categoryData (host 0) (expenses zero_amount)) = [0]
   \<and> totalAmount (host 0) travel_only = 0
   \<and> categoryBreakdown (host 0) travel_only
       = [(''Food'', 150, Infinity), (''Transport'', 30, Infinity)]
   \<and> categoryBreakdown (host 0) food_only =
       [(''Food'', 150, Finite 100), (''Transport'', 30, Finite 20)]"
  by (simp add: zero_amount_def travel_only_def food_only_def initial_def spec_records_def
      categoryBreakdown_def categoryTotals_def categoryTotals_step_def totalAmount_def
      filteredExpenses_def sum_amounts_def js_div_def js_times_def
      categoryData_def categoryData_step_def chart_totalAmount_def host_def)


section \<open>Daily totals\<close>

text \<open>
  What the daily totals contain: the records that pass the filter
  \<^verbatim>\<open>expenseDate >= thirtyDaysAgo\<close>, one group per date string in strictly ascending
  order, each with the amounts of the records of that date added up in the order of
  the list. The filter has a lower bound only.
\<close>

lemma daily_groups_keys:
  "distinct (map d_date (foldl (dailyData_step h) [] es))
   \<and> d_date ` set (foldl (dailyData_step h) [] es) = date ` set es"
  by (rule group_fold_keys [where
        upd = "\<lambda>e item. item\<lparr>d_amount := plus h (d_amount item) (amount e)\<rparr>"
        and new = "\<lambda>e. \<lparr>d_date = date e, d_amount = amount e,
                         d_displayDate = dayLabel h (new_Date h (date e))\<rparr>"])
     (simp_all add: dailyData_step_def)

lemma daily_groups_amounts:
  "\<forall>g \<in> set (foldl (dailyData_step h) [] es).
     \<exists>e rest. filter (\<lambda>x. date x = d_date g) es = e # rest
       \<and> d_amount g = foldl (\<lambda>v x. plus h v (amount x)) (amount e) rest"
  using group_fold_vals [where step = "dailyData_step h" and key = d_date and kf = date
      and upd = "\<lambda>e item. item\<lparr>d_amount := plus h (d_amount item) (amount e)\<rparr>"
      and new = "\<lambda>e. \<lparr>d_date = date e, d_amount = amount e,
                       d_displayDate = dayLabel h (new_Date h (date e))\<rparr>"
      and val = d_amount and add = "plus h" and vf = amount and xs = es]
  by (simp add: dailyData_step_def)

lemma dailyData_grouped_and_sorted:
  "sorted_wrt (<) (map d_date (dailyData h clock es))
   \<and> d_date ` set (dailyData h clock es) = date ` set (dailyData_kept h clock es)
   \<and> (\<forall>g \<in> set (dailyData h clock es).
         \<exists>e rest. filter (\<lambda>x. date x = d_date g) (dailyData_kept h clock es) = e # rest
           \<and> d_amount g = foldl (\<lambda>v x. plus h v (amount x)) (amount e) rest)"
  unfolding dailyData_def
  using daily_groups_keys [of h "dailyData_kept h clock es"]
    daily_groups_amounts [of h "dailyData_kept h clock es"]
  by (simp add: strict_sorted_sort_key)

lemma dailyData_kept_iff:
  "e \<in> set (dailyData_kept h clock es)
     \<longleftrightarrow> (\<exists>i < length es. es ! i = e \<and> dailyData_filter h (clock i) e)"
  by (auto simp: dailyData_kept_def in_set_enumerate_eq image_iff)

lemma dailyData_kept_steady: "dailyData_kept h (steady now) es = filter (dailyData_filter h now) es"
  by (simp add: dailyData_kept_def steady_def filter_enumerate_const)

lemma dailyData_filter_lower_bound_only:
  "dailyData_filter h now e \<longleftrightarrow> (\<exists>t. new_Date h (date e) = Some t \<and> thirtyDaysAgo h now \<le> t)"
  by (simp add: dailyData_filter_def split: option.splits)

text \<open>
  C3. The specification asks that the daily totals hold the records of the 30 days
  before now and no record dated after now, as the comment (\<^verbatim>\<open>last 30 days\<close>) and
  the title of the chart (\<^verbatim>\<open>Last 30 Days\<close>) say. The code keeps a record dated after
  now: on 2024-01-15 the record dated 2024-03-01 is in the output.
\<close>

theorem dailyData_keeps_future_records:
  "isoDate jan15 = ''2024-01-15''
   \<and> new_Date (host 0) (date future_record) = Some 1709251200000
   \<and> jan15 < 1709251200000
   \<and> dailyData (host 0) (steady jan15) [future_record] =
       [\<lparr>d_date = ''2024-03-01'', d_amount = 20, d_displayDate = ''Mar 1''\<rparr>]"
  by code_simp


section \<open>The total of the current month\<close>

text \<open>
  C4. The specification asks that the total of the current month be the sum of the
  amounts of the records whose date has the current month as its month, whatever the
  year. The card \<^verbatim>\<open>This Month\<close> reads the month of a record with
  \<^verbatim>\<open>new Date(exp.date).getMonth()\<close>: a date-only string is parsed as midnight UTC, and
  \<^verbatim>\<open>getMonth\<close> gives the month in the host's local time, so on a host west of UTC the
  first day of a month is taken for a day of the month before. At UTC-5, on 15 March
  2024 (month 2, counted from 0), the record dated 2024-03-01 is left out: the total
  of the current month is 0 and not the 20 of that record. A host at UTC gives 20.
\<close>

theorem thisMonth_misses_first_of_month_west_of_UTC:
  "date march_first = ''2024-03-01'' \<and> amount march_first = 20
   \<and> isoDate mar15 = ''2024-03-15''
   \<and> getMonth (host (-300)) (Some mar15) = Some 2
   \<and> getMonth (host (-300)) (new_Date (host (-300)) (date march_first)) = Some 1
   \<and> thisMonth (host (-300)) (steady mar15) [march_first] = 0
   \<and> thisMonth (host 0) (steady mar15) [march_first] = 20"
  by code_simp

text \<open>
  Apart from that the card does what the specification says. On the concrete host, at
  any offset of less than a day, a record whose date is a day of its month is counted
  exactly when the month of the date is the current local month, unless the host is
  west of UTC and the date is the first of its month; the year is not compared. In
  January 2024 the records of January 2023 and January 2024 are summed and the one of
  February 2024 is not, also at UTC-5.
\<close>

lemma thisMonth_filter_own_month:
  assumes "- 1440 < tz" "tz < 1440"
    and "iso_fields (date e) = Some (y, m, d)" and "d \<le> daysInMonth y m"
    and "0 \<le> tz \<or> 2 \<le> d"
  shows "strict_eq (getMonth (host tz) (new_Date (host tz) (date e))) (getMonth (host tz) (Some now))
     \<longleftrightarrow> m - 1 = MonthFromTime (now + tz * 60000)"
  by (simp add: getMonth_own_month [OF assms] strict_eq_def)
     (simp add: getMonth_def host_def)

lemma thisMonth_own_month:
  assumes tz: "- 1440 < tz" "tz < 1440"
    and dates: "\<forall>e \<in> set es. case iso_fields (date e) of
                   None \<Rightarrow> True
                 | Some (y, m, d) \<Rightarrow> d \<le> daysInMonth y m \<and> (0 \<le> tz \<or> 2 \<le> d)"
  shows "thisMonth (host tz) clock es =
     sum_amounts (host tz)
       (map snd
          (filter (\<lambda>(i, e). case iso_fields (date e) of
                               None \<Rightarrow> False
                             | Some (y, m, d) \<Rightarrow> m - 1 = MonthFromTime (clock i + tz * 60000))
             (enumerate 0 es)))"
proof -
  have "strict_eq (getMonth (host tz) (new_Date (host tz) (date e))) (getMonth (host tz) (Some now))
      = (case iso_fields (date e) of
           None \<Rightarrow> False
         | Some (y, m, d) \<Rightarrow> m - 1 = MonthFromTime (now + tz * 60000))"
    if "e \<in> set es" for e now
  proof (cases "iso_fields (date e)")
    case None
    then show ?thesis
      by (simp add: host_parses_fields getMonth_def strict_eq_def)
  next
    case (Some f)
    obtain y m d where f: "f = (y, m, d)" by (cases f)
    from dates that Some f have "d \<le> daysInMonth y m" "0 \<le> tz \<or> 2 \<le> d"
      by auto
    with thisMonth_filter_own_month [OF tz, of e y m d now] Some f show ?thesis
      by simp
  qed
  then have "filter (\<lambda>(i, e). strict_eq (getMonth (host tz) (new_Date (host tz) (date e)))
                                  (getMonth (host tz) (Some (clock i)))) (enumerate 0 es)
      = filter (\<lambda>(i, e). case iso_fields (date e) of
                               None \<Rightarrow> False
                             | Some (y, m, d) \<Rightarrow> m - 1 = MonthFromTime (clock i + tz * 60000))
          (enumerate 0 es)"
    by (intro filter_cong refl) (auto dest: enumerate_member)
  then show ?thesis
    unfolding thisMonth_def by simp
qed

lemma thisMonth_same_month_of_any_year:
  "thisMonth (host 0) (steady jan15) januaries = 107"
  "thisMonth (host (-300)) (steady jan15) januaries = 107"
  by code_simp+


section \<open>Monthly totals\<close>

text \<open>
  C5. The specification asks that the monthly totals group the records by the calendar
  year and month of their date, with the amounts summed and the records counted per
  group, in ascending order of the key. The key of a record is built from
  \<^verbatim>\<open>getFullYear\<close> and \<^verbatim>\<open>getMonth\<close> of \<^verbatim>\<open>new Date(expense.date)\<close>: a date-only string
  is parsed as midnight UTC and the two accessors read the host's local time, so on a
  host west of UTC a record dated on the first day of a month goes to the group of the
  month before. At UTC-5 the record dated 2024-03-01 is in the group 2024-02, labelled
  \<^verbatim>\<open>Feb 2024\<close>; a host at UTC puts it in the group 2024-03.
\<close>

theorem monthlyData_misplaces_first_of_month_west_of_UTC:
  "date march_first = ''2024-03-01''
   \<and> monthlyData (host (-300)) [march_first] =
       [\<lparr>m_monthKey = ''2024-02'', m_month = ''Feb 2024'', m_amount = 20, m_count = 1\<rparr>]
   \<and> monthlyData (host 0) [march_first] =
       [\<lparr>m_monthKey = ''2024-03'', m_month = ''Mar 2024'', m_amount = 20, m_count = 1\<rparr>]"
  by code_simp

text \<open>
  Apart from the key of such a record the monthly totals are what the specification
  says, on every host: one group per key in strictly ascending order of the key, each
  with the amounts of its records added up in the order of the list and with the
  number of its records. On the concrete host, at any offset of less than a day, the
  key of a record whose date is a day of its month is the year and month of the date,
  unless the host is west of UTC and the date is the first of its month. The records
  of the specification's example give 2024-01 with 130 (2 records), then 2024-02 with
  50 (1 record), at UTC and at UTC-5.
\<close>

lemma monthly_groups_keys:
  "distinct (map m_monthKey (foldl (monthlyData_step h) [] es))
   \<and> m_monthKey ` set (foldl (monthlyData_step h) [] es) = monthKey h ` set es"
  by (rule group_fold_keys [where
        upd = "\<lambda>e item. item\<lparr>m_amount := plus h (m_amount item) (amount e),
                                m_count := m_count item + 1\<rparr>"
        and new = "\<lambda>e. \<lparr>m_monthKey = monthKey h e, m_month = monthLabel h (new_Date h (date e)),
                         m_amount = amount e, m_count = 1\<rparr>"])
     (simp_all add: monthlyData_step_def)

lemma monthly_groups_amounts:
  "\<forall>g \<in> set (foldl (monthlyData_step h) [] es).
     \<exists>e rest. filter (\<lambda>x. monthKey h x = m_monthKey g) es = e # rest
       \<and> m_amount g = foldl (\<lambda>v x. plus h v (amount x)) (amount e) rest"
  using group_fold_vals [where step = "monthlyData_step h" and key = m_monthKey
      and kf = "monthKey h"
      and upd = "\<lambda>e item. item\<lparr>m_amount := plus h (m_amount item) (amount e),
                              m_count := m_count item + 1\<rparr>"
      and new = "\<lambda>e. \<lparr>m_monthKey = monthKey h e, m_month = monthLabel h (new_Date h (date e)),
                       m_amount = amount e, m_count = 1\<rparr>"
      and val = m_amount and add = "plus h" and vf = amount and xs = es]
  by (simp add: monthlyData_step_def)

lemma monthly_groups_counts:
  "\<forall>g \<in> set (foldl (monthlyData_step h) [] es).
     m_count g = length (filter (\<lambda>e. monthKey h e = m_monthKey g) es)"
proof
  fix g assume "g \<in> set (foldl (monthlyData_step h) [] es)"
  with group_fold_vals [where step = "monthlyData_step h" and key = m_monthKey
      and kf = "monthKey h"
      and upd = "\<lambda>e item. item\<lparr>m_amount := plus h (m_amount item) (amount e),
                              m_count := m_count item + 1\<rparr>"
      and new = "\<lambda>e. \<lparr>m_monthKey = monthKey h e, m_month = monthLabel h (new_Date h (date e)),
                       m_amount = amount e, m_count = 1\<rparr>"
      and val = m_count and add = "(+)" and vf = "\<lambda>e. 1" and xs = es]
  obtain e rest where "filter (\<lambda>x. monthKey h x = m_monthKey g) es = e # rest"
    "m_count g = foldl (\<lambda>v e. v + 1) 1 rest"
    by (auto simp: monthlyData_step_def)
  then show "m_count g = length (filter (\<lambda>e. monthKey h e = m_monthKey g) es)"
    by (simp add: length_as_fold)
qed

lemma monthlyData_grouped_and_sorted:
  "sorted_wrt (<) (map m_monthKey (monthlyData h es))
   \<and> m_monthKey ` set (monthlyData h es) = monthKey h ` set es
   \<and> (\<forall>g \<in> set (monthlyData h es).
         (\<exists>e rest. filter (\<lambda>x. monthKey h x = m_monthKey g) es = e # rest
            \<and> m_amount g = foldl (\<lambda>v x. plus h v (amount x)) (amount e) rest)
       \<and> m_count g = length (filter (\<lambda>e. monthKey h e = m_monthKey g) es))"
  unfolding monthlyData_def
  using monthly_groups_keys [of h es] monthly_groups_amounts [of h es]
    monthly_groups_counts [of h es]
  by (simp add: strict_sorted_sort_key)

lemma monthKey_own_month:
  assumes "- 1440 < tz" "tz < 1440"
    and "iso_fields (date e) = Some (y, m, d)" and "d \<le> daysInMonth y m"
    and "0 \<le> tz \<or> 2 \<le> d"
  shows "monthKey (host tz) e = toString y @ ''-'' @ padStart 2 (toString m)"
  by (simp add: monthKey_def Let_def getMonth_own_month [OF assms] toString_opt_def)

lemma monthlyData_example:
  "monthlyData (host 0) spec_records =
     [\<lparr>m_monthKey = ''2024-01'', m_month = ''Jan 2024'', m_amount = 130, m_count = 2\<rparr>,
      \<lparr>m_monthKey = ''2024-02'', m_month = ''Feb 2024'', m_amount = 50, m_count = 1\<rparr>]"
  "monthlyData (host (-300)) spec_records =
     [\<lparr>m_monthKey = ''2024-01'', m_month = ''Jan 2024'', m_amount = 130, m_count = 2\<rparr>,
      \<lparr>m_monthKey = ''2024-02'', m_month = ''Feb 2024'', m_amount = 50, m_count = 1\<rparr>]"
  by code_simp+


section \<open>Identifiers\<close>

lemma digits_nonempty: "digits n \<noteq> []"
  by (subst digits.simps) simp

lemma toString_nonempty: "toString n \<noteq> []"
  by (simp add: toString_def digits_nonempty)

lemma digit_of_decimal: "0 \<le> d \<Longrightarrow> d < 10 \<Longrightarrow> digit (''0123456789'' ! nat d) = Some d"
proof -
  assume "0 \<le> d" "d < 10"
  then have "d = 0 \<or> d = 1 \<or> d = 2 \<or> d = 3 \<or> d = 4 \<or> d = 5 \<or> d = 6 \<or> d = 7 \<or> d = 8 \<or> d = 9"
    by arith
  then show ?thesis
    by (elim disjE) (simp_all add: digit_def)
qed

lemma number_snoc:
  "number (s @ [c]) =
     (case (number s, digit c) of (Some a, Some d) \<Rightarrow> Some (10 * a + d) | _ \<Rightarrow> None)"
  by (simp add: number_def)

lemma number_digits: "0 \<le> n \<Longrightarrow> number (digits n) = Some n"
proof (induction n rule: digits.induct)
  case (1 n)
  show ?case
  proof (cases "n < 10")
    case True
    with "1.prems" have "digit (''0123456789'' ! nat n) = Some n"
      by (simp add: digit_of_decimal)
    moreover have "digits n = [''0123456789'' ! nat n]"
      using True by (subst digits.simps) simp
    ultimately show ?thesis
      using number_snoc [of "[]" "''0123456789'' ! nat n"] by (simp add: number_def)
  next
    case False
    then have rec: "number (digits (n div 10)) = Some (n div 10)"
      using "1.IH" "1.prems" by simp
    have last: "digit (''0123456789'' ! nat (n mod 10)) = Some (n mod 10)"
      by (simp add: digit_of_decimal)
    have "digits n = digits (n div 10) @ [''0123456789'' ! nat (n mod 10)]"
      using False by (subst digits.simps) simp
    then show ?thesis
      by (simp add: number_snoc rec last)
  qed
qed

lemma jan15_string: "toString jan15 = ''1705312800000''"
  by (simp add: toString_def jan15_def digits.simps)

lemma taxi_valid: "\<not> invalid taxi"
  by (simp add: invalid_def truthy_def taxi_def)

lemma first_submit_expenses:
  "expenses first_submit =
     [\<lparr>id' = ''1705312800000'', amount = 25, category = ''Transportation'',
       description = ''taxi'', date = ''2024-01-15''\<rparr>]"
proof -
  have "parse_digits ''25'' = 25"
    by (simp add: parse_digits_def number_def digit_def)
  then show ?thesis
    by (simp add: first_submit_def handleSubmit_def taxi_valid editing_def initial_def
        toast_def jan15_string Let_def) (simp add: taxi_def)
qed

lemma second_submit_expenses:
  "expenses second_submit =
     [\<lparr>id' = ''1705312800000'', amount = 25, category = ''Transportation'',
       description = ''taxi'', date = ''2024-01-15''\<rparr>,
      \<lparr>id' = ''1705312800000'', amount = 25, category = ''Transportation'',
       description = ''taxi'', date = ''2024-01-15''\<rparr>]"
proof -
  have "editingId first_submit = None"
    by (simp add: first_submit_def handleSubmit_def taxi_valid editing_def initial_def
        toast_def Let_def)
  moreover have "parse_digits ''25'' = 25"
    by (simp add: parse_digits_def number_def digit_def)
  ultimately have "expenses second_submit = expenses first_submit @
      [\<lparr>id' = toString jan15, amount = 25, category = ''Transportation'',
        description = ''taxi'', date = ''2024-01-15''\<rparr>]"
    by (simp add: second_submit_def handleSubmit_def taxi_valid editing_def toast_def Let_def)
       (simp add: taxi_def)
  then show ?thesis
    by (simp add: first_submit_expenses jan15_string)
qed

text \<open>
  C6. The specification asks that the identifiers of the records stay pairwise distinct
  under create, edit and delete, a newly created record getting an identifier that
  differs from every existing one. The component relies on it: a record is deleted and
  edited by its identifier, and the list is rendered with \<^verbatim>\<open>key={expense.id}\<close>. But
  the identifier of a new record is \<^verbatim>\<open>Date.now().toString()\<close>, and nothing compares it
  with the identifiers of the list. \<^verbatim>\<open>Date.now()\<close> is the wall clock in whole
  milliseconds; it gives a value a second time when two submits fall into one
  millisecond, when the clock is set back, or when the host coarsens or fixes the
  clock. Two submits of a filled form at the clock reading 1705312800000, starting
  from a fresh component, give two records with the identifier 1705312800000, and a
  delete of that identifier then removes both.
\<close>

theorem same_clock_reading_duplicates_identifier:
  "expenses (initial jan15) = []
   \<and> toString jan15 = ''1705312800000''
   \<and> map id' (expenses first_submit) = [''1705312800000'']
   \<and> distinct (map id' (expenses first_submit))
   \<and> map id' (expenses second_submit) = [''1705312800000'', ''1705312800000'']
   \<and> \<not> distinct (map id' (expenses second_submit))
   \<and> expenses (handleDelete ''1705312800000'' second_submit) = []"
proof -
  have fresh: "expenses (initial jan15) = []"
    by (simp add: initial_def)
  have ids: "map id' (expenses second_submit) = [''1705312800000'', ''1705312800000'']"
    by (simp add: second_submit_expenses)
  have gone: "expenses (handleDelete ''1705312800000'' second_submit) = []"
    by (simp add: handleDelete_def toast_def second_submit_expenses)
  from fresh ids gone show ?thesis
    by (simp add: first_submit_expenses jan15_string)
qed

text \<open>
  The other operations keep the identifiers distinct, and a create does so exactly
  when the clock reading is new: from a list with pairwise distinct identifiers, a
  delete by identifier gives a list with pairwise distinct identifiers, a submit while
  an identifier is being edited leaves the list of identifiers as it is, and a submit
  of a filled form while nothing is being edited gives pairwise distinct identifiers
  if and only if the decimal rendering of the clock reading is not an identifier of
  the list.
\<close>

lemma handleSubmit_edit_ids:
  assumes "editingId s = Some j" "j \<noteq> []"
  shows "map id' (expenses (handleSubmit pf now now' s)) = map id' (expenses s)"
proof (cases "invalid (form s)")
  case True
  then show ?thesis by (simp add: handleSubmit_def toast_def)
next
  case False
  have "map id' (map (\<lambda>exp. if id' exp = j then e else exp) es) = map id' es"
    if "id' e = j" for e :: Expense and es
    using that by (induction es) auto
  with False assms show ?thesis
    by (simp add: handleSubmit_def toast_def editing_def truthy_def Let_def)
qed

lemma handleDelete_keeps_distinct:
  "distinct (map id' (expenses s)) \<Longrightarrow> distinct (map id' (expenses (handleDelete i s)))"
  by (simp add: handleDelete_def toast_def distinct_map_filter)

lemma create_distinct_iff_fresh:
  assumes "distinct (map id' (expenses s))" and "editingId s = None" and "\<not> invalid (form s)"
  shows "distinct (map id' (expenses (handleSubmit pf now now' s)))
     \<longleftrightarrow> toString now \<notin> set (map id' (expenses s))"
  using assms by (simp add: handleSubmit_def toast_def editing_def Let_def)

section \<open>Submitting the form\<close>

text \<open>
  C7. When the amount, the category or the description of the form is empty, a submit
  shows the validation notification and does nothing else: in both variants the state
  after the submit is the state before it with that one notification appended, so the
  records, the form and the identifier being edited are unchanged, and in the
  persisted variant no remote call is made.
\<close>

theorem invalid_form_short_circuits:
  fixes s :: State and p :: PState
  shows "(form_amount (form s) = [] \<or> form_category (form s) = [] \<or> form_description (form s) = []
           \<longrightarrow> handleSubmit pf now now' s = s\<lparr>toasts := toasts s @ [validation_error]\<rparr>
             \<and> expenses (handleSubmit pf now now' s) = expenses s
             \<and> form (handleSubmit pf now now' s) = form s
             \<and> editingId (handleSubmit pf now now' s) = editingId s)
       \<and> (form_amount (form p) = [] \<or> form_category (form p) = [] \<or> form_description (form p) = []
           \<longrightarrow> handleSubmit_remote r pf now' p = p\<lparr>toasts := toasts p @ [validation_error]\<rparr>
             \<and> calls (handleSubmit_remote r pf now' p) = calls p
             \<and> expenses (handleSubmit_remote r pf now' p) = expenses p
             \<and> form (handleSubmit_remote r pf now' p) = form p)"
  by (simp add: handleSubmit_def handleSubmit_remote_def invalid_def truthy_def toast_def)

theorem invalid_form_short_circuits_witness:
  "form_category (form ((initial jan15)\<lparr>form := taxi\<lparr>form_category := []\<rparr>\<rparr>)) = []
   \<and> handleSubmit parse_digits jan15 jan15 ((initial jan15)\<lparr>form := taxi\<lparr>form_category := []\<rparr>\<rparr>)
       = (initial jan15)\<lparr>form := taxi\<lparr>form_category := []\<rparr>, toasts := [validation_error]\<rparr>
   \<and> form_amount (form (initial_remote jan15)) = []
   \<and> handleSubmit_remote offline parse_digits jan15 (initial_remote jan15)
       = (initial_remote jan15)\<lparr>toasts := [validation_error]\<rparr>
   \<and> calls (handleSubmit_remote offline parse_digits jan15 (initial_remote jan15)) = []"
  using invalid_form_short_circuits [where s = "(initial jan15)\<lparr>form := taxi\<lparr>form_category := []\<rparr>\<rparr>"
      and p = "initial_remote jan15" and r = offline and pf = parse_digits
      and now = jan15 and now' = jan15]
  by (simp add: initial_def initial_remote_def reset_form_def taxi_def)

text \<open>
  The identifiers that the component makes are never empty: the empty string, which
  \<^verbatim>\<open>editingId || ...\<close> and \<^verbatim>\<open>if (editingId)\<close> take for "no edit", is not the identifier
  of a record in any state reached from the initial one.
\<close>

lemma identifiers_nonempty:
  assumes "\<forall>e \<in> set (expenses s). id' e \<noteq> []"
  shows "\<forall>e \<in> set (expenses (handleSubmit pf now now' s)). id' e \<noteq> []"
    and "\<forall>e \<in> set (expenses (handleDelete i s)). id' e \<noteq> []"
    and "\<forall>e \<in> set (expenses (initial now)). id' e \<noteq> []"
proof -
  show "\<forall>e \<in> set (expenses (handleSubmit pf now now' s)). id' e \<noteq> []"
  proof (cases "invalid (form s)")
    case True
    with assms show ?thesis by (simp add: handleSubmit_def toast_def)
  next
    case False
    show ?thesis
    proof (cases "editing (editingId s)")
      case None
      with False assms show ?thesis
        by (simp add: handleSubmit_def toast_def Let_def toString_nonempty)
    next
      case (Some j)
      then have "j \<noteq> []"
        by (auto simp: editing_def truthy_def split: option.splits if_splits)
      with False Some assms show ?thesis
        by (auto simp: handleSubmit_def toast_def Let_def)
    qed
  qed
  show "\<forall>e \<in> set (expenses (handleDelete i s)). id' e \<noteq> []"
    using assms by (simp add: handleDelete_def toast_def)
  show "\<forall>e \<in> set (expenses (initial now)). id' e \<noteq> []"
    by (simp add: initial_def)
qed

lemma split_unique:
  assumes d: "distinct (map f zs)"
    and one: "zs = xs @ e # ys" and two: "zs = xs' @ e' # ys'" and k: "f e = f e'"
  shows "xs = xs' \<and> e = e' \<and> ys = ys'"
proof -
  from d have inj: "inj_on f (set zs)" and dz: "distinct zs"
    by (simp_all add: distinct_map)
  have "e \<in> set zs" unfolding one by simp
  moreover have "e' \<in> set zs" unfolding two by simp
  ultimately have ee: "e = e'"
    using inj k by (rule inj_onD [rotated 2])
  from dz have "e \<notin> set xs" "e \<notin> set ys"
    unfolding one by auto
  moreover have "xs @ e # ys = xs' @ e # ys'"
    using one two ee by simp
  ultimately have "xs = xs' \<and> ys = ys'"
    by (simp add: append_Cons_eq_iff)
  with ee show ?thesis by simp
qed

text \<open>
  C9. In a list with pairwise distinct identifiers, a submit of a filled form while the
  identifier \<open>i\<close> of a record of the list is being edited (\<^verbatim>\<open>editingId\<close> is \<open>i\<close>, and
  \<open>i\<close> is not the empty string, which the code takes for "no edit") replaces that
  record by one with the same identifier and the amount, category, description and date
  of the form. The records before and after it are unchanged and in their places, so
  the identifiers, their order and the length of the list are as before.
\<close>

theorem edit_replaces_fields_in_place:
  assumes "distinct (map id' (expenses s))"
    and "editingId s = Some i" and "i \<noteq> []"
    and "i \<in> set (map id' (expenses s))"
    and "form_amount (form s) \<noteq> []" and "form_category (form s) \<noteq> []"
    and "form_description (form s) \<noteq> []"
  shows "\<exists>xs e ys. expenses s = xs @ e # ys \<and> id' e = i
           \<and> expenses (handleSubmit pf now now' s) =
               xs @ \<lparr>id' = i, amount = pf (form_amount (form s)),
                      category = form_category (form s),
                      description = form_description (form s),
                      date = form_date (form s)\<rparr> # ys
           \<and> map id' (expenses (handleSubmit pf now now' s)) = map id' (expenses s)
           \<and> length (expenses (handleSubmit pf now now' s)) = length (expenses s)"
proof -
  let ?new = "\<lparr>id' = i, amount = pf (form_amount (form s)), category = form_category (form s),
                description = form_description (form s), date = form_date (form s)\<rparr>"
  from assms(4) obtain e where e: "e \<in> set (expenses s)" "id' e = i"
    by auto
  then obtain xs ys where split: "expenses s = xs @ e # ys"
    by (auto simp: in_set_conv_decomp)
  have others: "\<forall>x \<in> set xs \<union> set ys. id' x \<noteq> i"
    using assms(1) e(2) unfolding split by (auto simp: image_iff)
  then have keep: "map (\<lambda>exp. if id' exp = i then ?new else exp) xs = xs"
      "map (\<lambda>exp. if id' exp = i then ?new else exp) ys = ys"
    by (simp_all add: map_idI)
  have run: "expenses (handleSubmit pf now now' s) =
      map (\<lambda>exp. if id' exp = i then ?new else exp) (expenses s)"
    using assms(2,3,5,6,7)
    by (simp add: handleSubmit_def invalid_def truthy_def editing_def toast_def Let_def)
  then have result: "expenses (handleSubmit pf now now' s) = xs @ ?new # ys"
    unfolding split using keep e(2) by simp
  then have "map id' (expenses (handleSubmit pf now now' s)) = map id' (expenses s)"
    "length (expenses (handleSubmit pf now now' s)) = length (expenses s)"
    unfolding split using e(2) by simp_all
  with split e(2) result show ?thesis by blast
qed

theorem edit_replaces_fields_in_place_witness:
  "map id' (expenses editing_second) = [''1'', ''2'', ''3'']
   \<and> distinct (map id' (expenses editing_second))
   \<and> editingId editing_second = Some ''2''
   \<and> form editing_second = \<lparr>form_amount = ''75'', form_category = ''Shopping'',
        form_description = ''shoes'', form_date = ''2024-02-11''\<rparr>
   \<and> expenses (handleSubmit parse_digits 0 jan15 editing_second) =
       [\<lparr>id' = ''1'', amount = 100, category = ''Food'', description = ''a'',
         date = ''2024-01-05''\<rparr>,
        \<lparr>id' = ''2'', amount = 75, category = ''Shopping'', description = ''shoes'',
         date = ''2024-02-11''\<rparr>,
        \<lparr>id' = ''3'', amount = 30, category = ''Transport'', description = ''c'',
         date = ''2024-01-20''\<rparr>]
   \<and> map id' (expenses (handleSubmit parse_digits 0 jan15 editing_second)) = [''1'', ''2'', ''3'']
   \<and> length (expenses (handleSubmit parse_digits 0 jan15 editing_second)) = 3"
proof -
  let ?r1 = "\<lparr>id' = ''1'', amount = 100, category = ''Food'', description = ''a'',
              date = ''2024-01-05''\<rparr>"
  let ?r2 = "\<lparr>id' = ''2'', amount = 50, category = ''Food'', description = ''b'',
              date = ''2024-02-10''\<rparr>"
  let ?r3 = "\<lparr>id' = ''3'', amount = 30, category = ''Transport'', description = ''c'',
              date = ''2024-01-20''\<rparr>"
  have records: "expenses editing_second = [?r1, ?r2, ?r3]"
    by (simp add: editing_second_def handleEdit_def initial_def spec_records_def)
  have form: "form editing_second = \<lparr>form_amount = ''75'', form_category = ''Shopping'',
      form_description = ''shoes'', form_date = ''2024-02-11''\<rparr>"
    by (simp add: editing_second_def)
  have h: "distinct (map id' (expenses editing_second))"
    "editingId editing_second = Some ''2''" "''2'' \<noteq> []"
    "''2'' \<in> set (map id' (expenses editing_second))"
    "form_amount (form editing_second) \<noteq> []" "form_category (form editing_second) \<noteq> []"
    "form_description (form editing_second) \<noteq> []"
    unfolding records form by (simp_all add: editing_second_def handleEdit_def spec_records_def)
  have amount: "parse_digits ''75'' = 75"
    by (simp add: parse_digits_def number_def digit_def)
  from edit_replaces_fields_in_place [OF h, of parse_digits 0 jan15]
  obtain xs e ys where split: "expenses editing_second = xs @ e # ys" and e: "id' e = ''2''"
    and result: "expenses (handleSubmit parse_digits 0 jan15 editing_second) =
        xs @ \<lparr>id' = ''2'', amount = parse_digits (form_amount (form editing_second)),
               category = form_category (form editing_second),
               description = form_description (form editing_second),
               date = form_date (form editing_second)\<rparr> # ys"
    by blast
  have "expenses editing_second = [?r1] @ ?r2 # [?r3]" and "id' e = id' ?r2"
    using records e by simp_all
  with h(1) split have "xs = [?r1] \<and> e = ?r2 \<and> ys = [?r3]"
    by (rule split_unique)
  with result have "expenses (handleSubmit parse_digits 0 jan15 editing_second) =
       [?r1, \<lparr>id' = ''2'', amount = 75, category = ''Shopping'', description = ''shoes'',
               date = ''2024-02-11''\<rparr>, ?r3]"
    unfolding form by (simp add: amount)
  with records form h(1,2) show ?thesis by simp
qed

text \<open>
  C10. A submit of a filled form while no edit is in progress appends one record to the
  list and leaves the records before it as they are. The new record has the fields of
  the form, the parsed amount, and as its identifier the clock reading in decimal (the
  digits read back as that number). The success notification is appended and the form
  is reset.
\<close>

theorem create_appends_one_record:
  assumes "editingId s = None"
    and "form_amount (form s) \<noteq> []" and "form_category (form s) \<noteq> []"
    and "form_description (form s) \<noteq> []"
  shows "handleSubmit pf now now' s =
           s\<lparr>expenses := expenses s @
                 [\<lparr>id' = toString now, amount = pf (form_amount (form s)),
                   category = form_category (form s),
                   description = form_description (form s),
                   date = form_date (form s)\<rparr>],
             toasts := toasts s @ [success ''Expense added successfully!''],
             form := reset_form now'\<rparr>
         \<and> (0 \<le> now \<longrightarrow> number (toString now) = Some now)"
  using assms
  by (simp add: handleSubmit_def invalid_def truthy_def editing_def toast_def Let_def
      toString_def number_digits)

theorem create_appends_one_record_witness:
  "editingId (first_submit\<lparr>form := taxi\<rparr>) = None
   \<and> expenses (handleSubmit parse_digits 1705312800001 jan15 (first_submit\<lparr>form := taxi\<rparr>)) =
       expenses first_submit @
         [\<lparr>id' = ''1705312800001'', amount = 25, category = ''Transportation'',
           description = ''taxi'', date = ''2024-01-15''\<rparr>]
   \<and> number ''1705312800001'' = Some 1705312800001"
proof -
  have none: "editingId (first_submit\<lparr>form := taxi\<rparr>) = None"
    by (simp add: first_submit_def handleSubmit_def taxi_valid editing_def initial_def
        toast_def Let_def)
  have valid: "form_amount (form (first_submit\<lparr>form := taxi\<rparr>)) \<noteq> []"
    "form_category (form (first_submit\<lparr>form := taxi\<rparr>)) \<noteq> []"
    "form_description (form (first_submit\<lparr>form := taxi\<rparr>)) \<noteq> []"
    by (simp_all add: taxi_def)
  have id: "toString 1705312800001 = ''1705312800001''"
    by (simp add: toString_def digits.simps)
  have amount: "parse_digits ''25'' = 25"
    by (simp add: parse_digits_def number_def digit_def)
  from create_appends_one_record [OF none valid, of parse_digits 1705312800001 jan15]
  have "handleSubmit parse_digits 1705312800001 jan15 (first_submit\<lparr>form := taxi\<rparr>) =
      (first_submit\<lparr>form := taxi\<rparr>)\<lparr>expenses := expenses (first_submit\<lparr>form := taxi\<rparr>) @
                 [\<lparr>id' = ''1705312800001'', amount = parse_digits (form_amount (form (first_submit\<lparr>form := taxi\<rparr>))),
                   category = form_category (form (first_submit\<lparr>form := taxi\<rparr>)),
                   description = form_description (form (first_submit\<lparr>form := taxi\<rparr>)),
                   date = form_date (form (first_submit\<lparr>form := taxi\<rparr>))\<rparr>],
             toasts := toasts (first_submit\<lparr>form := taxi\<rparr>) @ [success ''Expense added successfully!''],
             form := reset_form jan15\<rparr>"
    and "number ''1705312800001'' = Some 1705312800001"
    unfolding id by simp_all
  then show ?thesis using none by (simp add: taxi_def amount)
qed

section \<open>Deleting a record\<close>

lemma filter_distinct_key:
  "distinct (map f (xs @ x # ys)) \<Longrightarrow> filter (\<lambda>e. f e \<noteq> f x) (xs @ x # ys) = xs @ ys"
proof -
  assume d: "distinct (map f (xs @ x # ys))"
  have "\<forall>e \<in> set xs \<union> set ys. f e \<noteq> f x"
    using d by (auto simp: image_iff)
  then have "filter (\<lambda>e. f e \<noteq> f x) xs = xs" "filter (\<lambda>e. f e \<noteq> f x) ys = ys"
    by (simp_all add: filter_id_conv)
  then show ?thesis by simp
qed

text \<open>
  C8. In a list with pairwise distinct identifiers, deleting by an identifier that is
  present removes the one record with that identifier: the list is \<open>xs @ e # ys\<close> with
  \<open>e\<close> the record deleted, and what remains is \<open>xs @ ys\<close>, every other record unchanged
  and in its place. The notification is appended and nothing else of the state changes.
\<close>

theorem handleDelete_removes_exactly_one:
  assumes "distinct (map id' (expenses s))" and "i \<in> set (map id' (expenses s))"
  shows "\<exists>xs e ys. expenses s = xs @ e # ys \<and> id' e = i
           \<and> (\<forall>x \<in> set xs \<union> set ys. id' x \<noteq> i)
           \<and> handleDelete i s =
               s\<lparr>expenses := xs @ ys,
                 toasts := toasts s @ [success ''Expense deleted successfully!'']\<rparr>"
proof -
  from assms(2) obtain e where e: "e \<in> set (expenses s)" "id' e = i"
    by auto
  then obtain xs ys where split: "expenses s = xs @ e # ys"
    by (auto simp: in_set_conv_decomp)
  have others: "\<forall>x \<in> set xs \<union> set ys. id' x \<noteq> i"
    using assms(1) e(2) unfolding split by (auto simp: image_iff)
  have "filter (\<lambda>exp. id' exp \<noteq> i) (expenses s) = xs @ ys"
    using filter_distinct_key [of id' xs e ys] assms(1) e(2) unfolding split by simp
  then have "handleDelete i s =
      s\<lparr>expenses := xs @ ys, toasts := toasts s @ [success ''Expense deleted successfully!'']\<rparr>"
    by (simp add: handleDelete_def toast_def)
  with split e(2) others show ?thesis by blast
qed

theorem handleDelete_removes_exactly_one_witness:
  "distinct (map id' (expenses food_only)) \<and> ''2'' \<in> set (map id' (expenses food_only))
   \<and> (\<exists>xs e ys. expenses food_only = xs @ e # ys \<and> id' e = ''2''
         \<and> (\<forall>x \<in> set xs \<union> set ys. id' x \<noteq> ''2'')
         \<and> handleDelete ''2'' food_only =
             food_only\<lparr>expenses := xs @ ys,
               toasts := toasts food_only @ [success ''Expense deleted successfully!'']\<rparr>)
   \<and> map id' (expenses (handleDelete ''2'' food_only)) = [''1'', ''3'']"
proof -
  have distinct: "distinct (map id' (expenses food_only))"
    and present: "''2'' \<in> set (map id' (expenses food_only))"
    by (simp_all add: food_only_def initial_def spec_records_def)
  note handleDelete_removes_exactly_one [OF distinct present]
  moreover have "map id' (expenses (handleDelete ''2'' food_only)) = [''1'', ''3'']"
    by (simp add: food_only_def initial_def spec_records_def handleDelete_def toast_def)
  ultimately show ?thesis using distinct present by blast
qed


end
